theory Spec2Isabelle
  imports Main "HOL-Library.Word"
begin

unbundle bit_operations_syntax

section \<open>The NFS block driver (block/nfs.c)\<close>

text \<open>
  A shallow embedding of the driver that lets the block layer read and write a file on an
  NFS share through libnfs. The driver runs on one thread: its functions are modelled as
  functions on an explicit state, the calls it makes into libnfs, the reactor and the
  logger are recorded in order, and what libnfs and the reactor answer is an input.
\<close>

subsection \<open>C types and constants of the headers\<close>

type_synonym cint = "32 word"    \<comment> \<open>\<open>int\<close>; read it with \<open>sint\<close>\<close>
type_synonym int64 = "64 word"   \<comment> \<open>\<open>int64_t\<close>, \<open>off_t\<close>; read it with \<open>sint\<close>\<close>
type_synonym uint64 = "64 word"  \<comment> \<open>\<open>unsigned long long\<close>, \<open>size_t\<close>; read it with \<open>unat\<close>\<close>
type_synonym byte = "8 word"

text \<open>Modelled from the spec: the readiness bits of \<open>poll.h\<close>, which is not part of the
  sources; the values are those of Linux.\<close>

definition POLLIN :: cint where "POLLIN = 1"
definition POLLOUT :: cint where "POLLOUT = 4"

text \<open>Modelled from the spec: the error numbers of \<open>errno.h\<close> and the open flag of
  \<open>fcntl.h\<close>, which are not part of the sources; the values are those of Linux.\<close>

definition EIO :: cint where "EIO = 5"
definition ENOMEM :: cint where "ENOMEM = 12"
definition EINVAL :: cint where "EINVAL = 22"
definition O_CREAT :: cint where "O_CREAT = 64"

text \<open>Modelled from the spec: the fixed sector size of the block layer,
  \<open>#define BDRV_SECTOR_SIZE (1ULL << BDRV_SECTOR_BITS)\<close> with 9 sector bits in
  \<open>block/block.h\<close>, which is not part of the sources. It is an unsigned 64-bit value, so
  every product with it is computed modulo \<open>2 ^ 64\<close>.\<close>

definition BDRV_SECTOR_SIZE :: uint64 where "BDRV_SECTOR_SIZE = 512"

text \<open>Modelled from the spec: \<open>#define DIV_ROUND_UP(n, d) (((n) + (d) - 1) / (d))\<close> of
  \<open>qemu/osdep.h\<close>, which is not part of the sources, at the type of its use (both
  operands converted to unsigned 64 bits).\<close>

definition DIV_ROUND_UP :: "uint64 \<Rightarrow> uint64 \<Rightarrow> uint64" where
  "DIV_ROUND_UP n d = (n + d - 1) div d"

subsection \<open>Data\<close>

text \<open>What the driver can observe of a \<open>struct nfs_context\<close>: the descriptor
  \<open>nfs_get_fd\<close> returns, the readiness mask \<open>nfs_which_events\<close> returns and the text
  \<open>nfs_get_error\<close> returns. The driver owns the context, so the record stands for the
  pointer together with the object it points to; \<open>None\<close> is the null pointer.\<close>

record nfs_context =
  ctx_fd :: cint
  ctx_events :: cint
  ctx_error :: string

text \<open>\<open>struct NFSClient\<close>. The field \<open>context\<close> is named \<open>context_p\<close>, the former being
  a keyword. A file handle is an opaque number.\<close>

record NFSClient =
  context_p :: "nfs_context option"
  fh :: "nat option"
  events :: cint
  has_zero_init :: bool

text \<open>What \<open>memset(client, 0, sizeof(NFSClient))\<close> leaves.\<close>

definition NFSClient_zero :: NFSClient where
  "NFSClient_zero = \<lparr>context_p = None, fh = None, events = 0, has_zero_init = False\<rparr>"

text \<open>\<open>struct NFSRPC\<close>. The pointers \<open>iov\<close> and \<open>st\<close> are addresses in the store below,
  \<open>co\<close> and \<open>bh\<close> are opaque handles.\<close>

record NFSRPC =
  status :: cint
  complete :: cint
  iov :: "nat option"
  st :: "nat option"
  co :: "nat option"
  bh :: "nat option"

definition NFSRPC_zero :: NFSRPC where
  "NFSRPC_zero = \<lparr>status = 0, complete = 0, iov = None, st = None, co = None, bh = None\<rparr>"

text \<open>A \<open>QEMUIOVector\<close> is a list of memory regions. The model keeps the bytes of the
  regions, concatenated in order; the field \<open>size\<close> of the struct, the total number of
  bytes, is their number.\<close>

record QEMUIOVector =
  flat :: "byte list"

definition qiov_size :: "QEMUIOVector \<Rightarrow> nat" where
  "qiov_size q = length (flat q)"

text \<open>The fields of \<open>struct stat\<close> that the driver reads.\<close>

record stat =
  st_mode :: "32 word"
  st_size :: int64
  st_blksize :: int64
  st_blocks :: int64

text \<open>The memory the driver shares with its callers: the vectors and the \<open>struct stat\<close>
  objects, by address.\<close>

record memory =
  iovecs :: "nat \<Rightarrow> QEMUIOVector"
  stats :: "nat \<Rightarrow> stat"

text \<open>The calls that leave the driver, in the order they are made. A handler argument of
  \<open>qemu_aio_set_fd_handler\<close> is \<open>True\<close> when the function pointer is passed and \<open>False\<close>
  when \<open>NULL\<close> is.\<close>

datatype extcall =
    AioSetFdHandler cint bool bool bool
  | NfsService cint
  | NfsClose nat
  | NfsDestroyContext
  | NfsSetUid cint
  | NfsSetGid cint
  | NfsSetTcpSyncnt cint
  | NfsMount string string
  | NfsCreat string cint
  | NfsOpen string cint
  | NfsFstat
  | NfsPreadAsync uint64 uint64
  | NfsPwriteAsync uint64 uint64 "byte list"
  | NfsFsyncAsync
  | NfsFstatAsync
  | ErrorReport string
  | ErrorSetg string
  | BhSchedule nat
  | BhDelete "nat option"
  | CoroutineEnter "nat option"

text \<open>The state of one client with, at most, one request in flight: the client, the
  request's task (a local variable of the operation that waits for it), the shared memory,
  the bottom halves that are scheduled and the calls made so far.\<close>

record state =
  client :: NFSClient
  task :: NFSRPC
  mem :: memory
  scheduled :: "nat list"
  calls :: "extcall list"

definition call :: "extcall \<Rightarrow> state \<Rightarrow> state" where
  "call c s = s\<lparr>calls := calls s @ [c]\<rparr>"

subsection \<open>The event bridge\<close>

text \<open>
  \<^verbatim>\<open>
  static void nfs_set_events(NFSClient *client)
  {
      int ev = nfs_which_events(client->context);
      if (ev != client->events) {
          qemu_aio_set_fd_handler(nfs_get_fd(client->context),
                        (ev & POLLIN) ? nfs_process_read : NULL,
                        (ev & POLLOUT) ? nfs_process_write : NULL,
                        client);
      }
      client->events = ev;
  }
  \<close>
  libnfs is handed the context pointer; for a null pointer it has no defined behaviour,
  which is the result \<open>None\<close>.
\<close>

definition nfs_set_events :: "state \<Rightarrow> state option" where
  "nfs_set_events s =
     (case context_p (client s) of
        None \<Rightarrow> None
      | Some c \<Rightarrow>
          (let ev = ctx_events c;
               s1 = (if ev \<noteq> events (client s)
                     then call (AioSetFdHandler (ctx_fd c)
                                  (ev AND POLLIN \<noteq> 0) (ev AND POLLOUT \<noteq> 0) True) s
                     else s)
           in Some (s1\<lparr>client := (client s1)\<lparr>events := ev\<rparr>\<rparr>)))"

subsection \<open>Closing\<close>

text \<open>
  \<^verbatim>\<open>
  static void nfs_client_close(NFSClient *client)
  {
      if (client->context) {
          if (client->fh) {
              nfs_close(client->context, client->fh);
          }
          qemu_aio_set_fd_handler(nfs_get_fd(client->context), NULL, NULL, NULL);
          nfs_destroy_context(client->context);
      }
      memset(client, 0, sizeof(NFSClient));
  }
  \<close>
\<close>

definition nfs_client_close :: "state \<Rightarrow> state" where
  "nfs_client_close s =
     (let s3 =
        (case context_p (client s) of
           None \<Rightarrow> s
         | Some c \<Rightarrow>
             (let s1 = (case fh (client s) of None \<Rightarrow> s | Some h \<Rightarrow> call (NfsClose h) s);
                  s2 = call (AioSetFdHandler (ctx_fd c) False False False) s1
              in call NfsDestroyContext s2))
      in s3\<lparr>client := NFSClient_zero\<rparr>)"

subsection \<open>Vectors\<close>

text \<open>Modelled from the spec: \<open>qemu_iovec_from_buf(qiov, offset, buf, bytes)\<close> of
  \<open>util/iov.c\<close>, which is not part of the sources. It copies \<open>bytes\<close> bytes of \<open>buf\<close>
  into the vector from \<open>offset\<close> on and never writes past the vector's end. A position
  for which \<open>buf\<close> has no byte keeps its content (the C code would read past \<open>buf\<close>).\<close>

definition qemu_iovec_from_buf :: "QEMUIOVector \<Rightarrow> nat \<Rightarrow> byte list \<Rightarrow> nat \<Rightarrow> QEMUIOVector" where
  "qemu_iovec_from_buf q offset buf n =
     q\<lparr>flat := map (\<lambda>i. if offset \<le> i \<and> i < offset + n \<and> i - offset < length buf
                          then buf ! (i - offset) else flat q ! i)
                    [0..<length (flat q)]\<rparr>"

text \<open>Modelled from the spec: \<open>qemu_iovec_memset(qiov, offset, fillc, bytes)\<close> of
  \<open>util/iov.c\<close>, which is not part of the sources. It sets \<open>bytes\<close> bytes of the vector
  from \<open>offset\<close> on to \<open>fillc\<close> and never writes past the vector's end.\<close>

definition qemu_iovec_memset :: "QEMUIOVector \<Rightarrow> nat \<Rightarrow> byte \<Rightarrow> nat \<Rightarrow> QEMUIOVector" where
  "qemu_iovec_memset q offset fillc n =
     q\<lparr>flat := map (\<lambda>i. if offset \<le> i \<and> i < offset + n then fillc else flat q ! i)
                    [0..<length (flat q)]\<rparr>"

text \<open>Modelled from the spec: \<open>qemu_iovec_to_buf(qiov, offset, buf, bytes)\<close> of
  \<open>util/iov.c\<close>, which is not part of the sources. It copies \<open>bytes\<close> bytes of the vector
  from \<open>offset\<close> on to \<open>buf\<close>, as many as the vector has; the result is what \<open>buf\<close>
  holds of them.\<close>

definition qemu_iovec_to_buf :: "QEMUIOVector \<Rightarrow> nat \<Rightarrow> nat \<Rightarrow> byte list" where
  "qemu_iovec_to_buf q offset n = take n (drop offset (flat q))"

subsection \<open>The completion callback\<close>

text \<open>The memory that the argument \<open>void *data\<close> of the callback points to, read as
  bytes (by \<open>qemu_iovec_from_buf\<close>) and read as a \<open>struct stat\<close> (by \<open>memcpy\<close>).\<close>

record payload =
  as_bytes :: "byte list"
  as_stat :: stat

text \<open>
  \<^verbatim>\<open>
  static void nfs_co_init_task(NFSClient *client, NFSRPC *task)
  {
      *task = (NFSRPC) {
          .co         = qemu_coroutine_self(),
      };
  }
  \<close>
  The first argument is what \<open>qemu_coroutine_self()\<close> returns.
\<close>

definition nfs_co_init_task :: "nat \<Rightarrow> state \<Rightarrow> state" where
  "nfs_co_init_task self s = s\<lparr>task := NFSRPC_zero\<lparr>co := Some self\<rparr>\<rparr>"

text \<open>
  \<^verbatim>\<open>
  static void nfs_co_generic_bh_cb(void *opaque)
  {
      NFSRPC *task = opaque;
      qemu_bh_delete(task->bh);
      qemu_coroutine_enter(task->co, NULL);
  }
  \<close>
\<close>

definition nfs_co_generic_bh_cb :: "state \<Rightarrow> state" where
  "nfs_co_generic_bh_cb s =
     (let s1 = call (BhDelete (bh (task s)))
                 (s\<lparr>scheduled := (case bh (task s) of None \<Rightarrow> scheduled s
                                    | Some b \<Rightarrow> removeAll b (scheduled s))\<rparr>)
      in call (CoroutineEnter (co (task s1))) s1)"

text \<open>
  \<^verbatim>\<open>
  static void
  nfs_co_generic_cb(int status, struct nfs_context *nfs, void *data,
                    void *private_data)
  {
      NFSRPC *task = private_data;
      task->complete = 1;
      task->status = status;
      if (task->status > 0 && task->iov) {
          if (task->status <= task->iov->size) {
              qemu_iovec_from_buf(task->iov, 0, data, task->status);
          } else {
              task->status = -EIO;
          }
      }
      if (task->status == 0 && task->st) {
          memcpy(task->st, data, sizeof(struct stat));
      }
      if (task->ret < 0) {
          error_report("NFS Error: %s", nfs_get_error(nfs));
      }
      if (task->co) {
          task->bh = qemu_bh_new(nfs_co_generic_bh_cb, task);
          qemu_bh_schedule(task->bh);
      }
  }
  \<close>
  The function is a sequence of six statements; each is a function on the state, so that
  the states between them can be told apart. In the comparison with \<open>task->iov->size\<close>
  the status is positive, so its conversion to \<open>size_t\<close> keeps its value. The struct has
  no field \<open>ret\<close>: the fifth statement is modelled on \<open>status\<close>, and it decides a log
  line only. The last argument of \<open>cb_bh\<close> is the pointer \<open>qemu_bh_new\<close> returns.
\<close>

definition cb_complete :: "state \<Rightarrow> state" where
  "cb_complete s = s\<lparr>task := (task s)\<lparr>complete := 1\<rparr>\<rparr>"

definition cb_status :: "cint \<Rightarrow> state \<Rightarrow> state" where
  "cb_status status_arg s = s\<lparr>task := (task s)\<lparr>status := status_arg\<rparr>\<rparr>"

definition cb_iov :: "payload \<Rightarrow> state \<Rightarrow> state" where
  "cb_iov data s =
     (case iov (task s) of
        None \<Rightarrow> s
      | Some p \<Rightarrow>
          if 0 <s status (task s) then
            (if sint (status (task s)) \<le> int (qiov_size (iovecs (mem s) p))
             then s\<lparr>mem := (mem s)\<lparr>iovecs := (iovecs (mem s))
                     (p := qemu_iovec_from_buf (iovecs (mem s) p) 0 (as_bytes data)
                             (nat (sint (status (task s)))))\<rparr>\<rparr>
             else s\<lparr>task := (task s)\<lparr>status := - EIO\<rparr>\<rparr>)
          else s)"

definition cb_st :: "payload \<Rightarrow> state \<Rightarrow> state" where
  "cb_st data s =
     (case st (task s) of
        None \<Rightarrow> s
      | Some p \<Rightarrow>
          if status (task s) = 0
          then s\<lparr>mem := (mem s)\<lparr>stats := (stats (mem s))(p := as_stat data)\<rparr>\<rparr>
          else s)"

definition cb_report :: "nfs_context \<Rightarrow> state \<Rightarrow> state" where
  "cb_report nfs s =
     (if status (task s) <s 0 then call (ErrorReport (''NFS Error: '' @ ctx_error nfs)) s else s)"

definition cb_bh :: "nat \<Rightarrow> state \<Rightarrow> state" where
  "cb_bh new_bh s =
     (case co (task s) of
        None \<Rightarrow> s
      | Some c \<Rightarrow>
          call (BhSchedule new_bh)
            (s\<lparr>task := (task s)\<lparr>bh := Some new_bh\<rparr>, scheduled := scheduled s @ [new_bh]\<rparr>))"

definition nfs_co_generic_cb_stmts ::
  "cint \<Rightarrow> nfs_context \<Rightarrow> payload \<Rightarrow> nat \<Rightarrow> (state \<Rightarrow> state) list" where
  "nfs_co_generic_cb_stmts status_arg nfs data new_bh =
     [cb_complete, cb_status status_arg, cb_iov data, cb_st data, cb_report nfs, cb_bh new_bh]"

text \<open>Running statements in order: the state at the end, and the states after each.\<close>

fun run :: "('s \<Rightarrow> 's) list \<Rightarrow> 's \<Rightarrow> 's" where
  "run [] s = s"
| "run (f # fs) s = run fs (f s)"

fun run_states :: "('s \<Rightarrow> 's) list \<Rightarrow> 's \<Rightarrow> 's list" where
  "run_states [] s = []"
| "run_states (f # fs) s = f s # run_states fs (f s)"

definition nfs_co_generic_cb :: "cint \<Rightarrow> nfs_context \<Rightarrow> payload \<Rightarrow> nat \<Rightarrow> state \<Rightarrow> state" where
  "nfs_co_generic_cb status_arg nfs data new_bh s =
     run (nfs_co_generic_cb_stmts status_arg nfs data new_bh) s"

definition nfs_co_generic_cb_states ::
  "cint \<Rightarrow> nfs_context \<Rightarrow> payload \<Rightarrow> nat \<Rightarrow> state \<Rightarrow> state list" where
  "nfs_co_generic_cb_states status_arg nfs data new_bh s =
     run_states (nfs_co_generic_cb_stmts status_arg nfs data new_bh) s"

subsection \<open>The reactor's side\<close>

text \<open>What one turn of the reactor does while an operation is suspended: the descriptor
  is writable (\<open>nfs_process_write\<close> runs) or readable (\<open>nfs_process_read\<close> runs); the
  engine's service routine completes the request in flight, or not; afterwards the
  engine wants the readiness \<open>t_events\<close>. A completion is the status and the data the
  engine passes to the callback, and the pointer \<open>qemu_bh_new\<close> returns to it.\<close>

record completion =
  c_status :: cint
  c_data :: payload
  c_bh :: nat

record turn =
  t_write :: bool
  t_completion :: "completion option"
  t_events :: cint

text \<open>Modelled from the spec: \<open>nfs_service(context, revents)\<close> of libnfs, which is not part
  of the sources. Upon readiness it drives the engine, which invokes the completion
  callback of a request that has completed, and leaves the engine with a new desired
  readiness.\<close>

definition nfs_service :: "turn \<Rightarrow> cint \<Rightarrow> state \<Rightarrow> state option" where
  "nfs_service t revents s =
     (case context_p (client s) of
        None \<Rightarrow> None
      | Some c \<Rightarrow>
          (let s1 = call (NfsService revents) s;
               s2 = (case t_completion t of
                       None \<Rightarrow> s1
                     | Some k \<Rightarrow> nfs_co_generic_cb (c_status k) c (c_data k) (c_bh k) s1)
           in Some (s2\<lparr>client := (client s2)\<lparr>context_p := Some (c\<lparr>ctx_events := t_events t\<rparr>)\<rparr>\<rparr>)))"

text \<open>
  \<^verbatim>\<open>
  static void nfs_process_read(void *arg)
  {
      NFSClient *client = arg;
      nfs_service(client->context, POLLIN);
      nfs_set_events(client);
  }

  static void nfs_process_write(void *arg)
  {
      NFSClient *client = arg;
      nfs_service(client->context, POLLOUT);
      nfs_set_events(client);
  }
  \<close>
\<close>

definition nfs_process_read :: "turn \<Rightarrow> state \<Rightarrow> state option" where
  "nfs_process_read t s = Option.bind (nfs_service t POLLIN s) nfs_set_events"

definition nfs_process_write :: "turn \<Rightarrow> state \<Rightarrow> state option" where
  "nfs_process_write t s = Option.bind (nfs_service t POLLOUT s) nfs_set_events"

text \<open>Modelled from the spec: one turn of the reactor, which is not part of the sources.
  It dispatches the handler of the ready descriptor and then executes the deferred
  callback if one is scheduled. \<open>qemu_coroutine_yield()\<close> returns to the operation after
  such a turn, and so does \<open>qemu_aio_wait()\<close>.\<close>

definition reactor_turn :: "turn \<Rightarrow> state \<Rightarrow> state option" where
  "reactor_turn t s =
     (case (if t_write t then nfs_process_write t s else nfs_process_read t s) of
        None \<Rightarrow> None
      | Some s1 \<Rightarrow> Some (if scheduled s1 \<noteq> [] then nfs_co_generic_bh_cb s1 else s1))"

definition qemu_coroutine_yield :: "turn \<Rightarrow> state \<Rightarrow> state option" where
  "qemu_coroutine_yield t s = reactor_turn t s"

definition qemu_aio_wait :: "turn \<Rightarrow> state \<Rightarrow> state option" where
  "qemu_aio_wait t s = reactor_turn t s"

text \<open>The completion that the reactor's turns deliver first, if any.\<close>

fun first_completion :: "turn list \<Rightarrow> completion option" where
  "first_completion [] = None"
| "first_completion (t # ts) =
     (case t_completion t of Some k \<Rightarrow> Some k | None \<Rightarrow> first_completion ts)"

subsection \<open>The operations\<close>

text \<open>
  \<^verbatim>\<open>
      while (!task.complete) {
          nfs_set_events(client);
          qemu_coroutine_yield();
      }
  \<close>
  The list holds the reactor's turns, one for each suspension. When the task is not
  complete and no turn is left, the operation stays suspended and returns nothing: the
  result is \<open>None\<close>, as it is when libnfs is handed a null context.
\<close>

fun wait_co :: "turn list \<Rightarrow> state \<Rightarrow> state option" where
  "wait_co [] s = (if complete (task s) \<noteq> 0 then Some s else None)"
| "wait_co (t # ts) s =
     (if complete (task s) \<noteq> 0 then Some s
      else case nfs_set_events s of
             None \<Rightarrow> None
           | Some s1 \<Rightarrow>
               (case qemu_coroutine_yield t s1 of
                  None \<Rightarrow> None
                | Some s2 \<Rightarrow> wait_co ts s2))"

text \<open>
  \<^verbatim>\<open>
      while (!task.complete) {
          nfs_set_events(client);
          qemu_aio_wait();
      }
  \<close>
\<close>

fun wait_aio :: "turn list \<Rightarrow> state \<Rightarrow> state option" where
  "wait_aio [] s = (if complete (task s) \<noteq> 0 then Some s else None)"
| "wait_aio (t # ts) s =
     (if complete (task s) \<noteq> 0 then Some s
      else case nfs_set_events s of
             None \<Rightarrow> None
           | Some s1 \<Rightarrow>
               (case qemu_aio_wait t s1 of
                  None \<Rightarrow> None
                | Some s2 \<Rightarrow> wait_aio ts s2))"

text \<open>
  \<^verbatim>\<open>
  static int coroutine_fn nfs_co_readv(BlockDriverState *bs,
                                       int64_t sector_num, int nb_sectors,
                                       QEMUIOVector *iov)
  {
      NFSClient *client = bs->opaque;
      NFSRPC task;

      nfs_co_init_task(client, &task);
      task.iov = iov;

      if (nfs_pread_async(client->context, client->fh,
                          sector_num * BDRV_SECTOR_SIZE,
                          nb_sectors * BDRV_SECTOR_SIZE,
                          nfs_co_generic_cb, &task) != 0) {
          return -ENOMEM;
      }

      while (!task.complete) {
          nfs_set_events(client);
          qemu_coroutine_yield();
      }

      if (task.status < 0) {
          return task.status;
      }

      /* zero pad short reads */
      if (task.status < iov->size) {
          qemu_iovec_memset(iov, task.status, 0, iov->size - task.status);
      }

      return 0;
  }
  \<close>
  The first three arguments are the environment: the running coroutine, what the
  submission returns and the reactor's turns. \<open>iov_p\<close> is the address of the vector.
  In both products the \<open>int\<close> and the \<open>int64_t\<close> are converted to unsigned 64 bits; in
  the comparison with \<open>iov->size\<close> the status is not negative, so its conversion keeps
  its value.
\<close>

definition nfs_co_readv ::
  "nat \<Rightarrow> cint \<Rightarrow> turn list \<Rightarrow> int64 \<Rightarrow> cint \<Rightarrow> nat \<Rightarrow> state \<Rightarrow> (cint \<times> state) option" where
  "nfs_co_readv self submit turns sector_num nb_sectors iov_p s =
     (let s1 = nfs_co_init_task self s;
          s2 = s1\<lparr>task := (task s1)\<lparr>iov := Some iov_p\<rparr>\<rparr>;
          s3 = call (NfsPreadAsync (sector_num * BDRV_SECTOR_SIZE)
                       (scast nb_sectors * BDRV_SECTOR_SIZE)) s2
      in if submit \<noteq> 0 then Some (- ENOMEM, s3)
         else case wait_co turns s3 of
                None \<Rightarrow> None
              | Some s4 \<Rightarrow>
                  if status (task s4) <s 0 then Some (status (task s4), s4)
                  else
                    (let q = iovecs (mem s4) iov_p;
                         n = nat (sint (status (task s4)))
                     in if n < qiov_size q
                        then Some (0, s4\<lparr>mem := (mem s4)\<lparr>iovecs := (iovecs (mem s4))
                                         (iov_p := qemu_iovec_memset q n 0 (qiov_size q - n))\<rparr>\<rparr>)
                        else Some (0, s4)))"

text \<open>
  \<^verbatim>\<open>
  static int coroutine_fn nfs_co_writev(BlockDriverState *bs,
                                          int64_t sector_num, int nb_sectors,
                                          QEMUIOVector *iov)
  {
      NFSClient *client = bs->opaque;
      NFSRPC task;
      char *buf = NULL;

      nfs_co_init_task(client, &task);

      buf = g_malloc(nb_sectors * BDRV_SECTOR_SIZE);
      qemu_iovec_to_buf(iov, 0, buf, nb_sectors * BDRV_SECTOR_SIZE);

      if (nfs_pwrite_async(client->context, client->fh,
                           sector_num * BDRV_SECTOR_SIZE,
                           nb_sectors * BDRV_SECTOR_SIZE,
                           buf, nfs_co_generic_cb, &task) != 0) {
          g_free(buf);
          return -ENOMEM;
      }

      while (!task.complete) {
          nfs_set_events(client);
          qemu_coroutine_yield();
      }

      g_free(buf);

      if (task.status != nb_sectors * BDRV_SECTOR_SIZE) {
          return task.status < 0 ? task.status : -EIO;
      }

      return 0;
  }
  \<close>
  The temporary buffer is a value, so releasing it leaves no trace. In the last
  comparison the status is converted to unsigned 64 bits, as \<open>nb_sectors\<close> is in the
  product.

  Modelled from the spec: \<open>g_malloc\<close> of GLib, which is not part of the sources. It ends
  the process when the memory cannot be had, and a request of \<open>2 ^ 63\<close> bytes or more,
  which is what a negative count of sectors asks for, can never be had. The write then
  returns nothing.
\<close>

definition g_malloc_aborts :: "uint64 \<Rightarrow> bool" where
  "g_malloc_aborts n = (2 ^ 63 \<le> uint n)"

definition nfs_co_writev ::
  "nat \<Rightarrow> cint \<Rightarrow> turn list \<Rightarrow> int64 \<Rightarrow> cint \<Rightarrow> nat \<Rightarrow> state \<Rightarrow> (cint \<times> state) option" where
  "nfs_co_writev self submit turns sector_num nb_sectors iov_p s =
     (let s1 = nfs_co_init_task self s;
          buf = qemu_iovec_to_buf (iovecs (mem s1) iov_p) 0
                  (unat (scast nb_sectors * BDRV_SECTOR_SIZE));
          s2 = call (NfsPwriteAsync (sector_num * BDRV_SECTOR_SIZE)
                       (scast nb_sectors * BDRV_SECTOR_SIZE) buf) s1
      in if g_malloc_aborts (scast nb_sectors * BDRV_SECTOR_SIZE) then None
         else if submit \<noteq> 0 then Some (- ENOMEM, s2)
         else case wait_co turns s2 of
                None \<Rightarrow> None
              | Some s3 \<Rightarrow>
                  if (scast (status (task s3)) :: uint64) \<noteq> scast nb_sectors * BDRV_SECTOR_SIZE
                  then Some (if status (task s3) <s 0 then status (task s3) else - EIO, s3)
                  else Some (0, s3))"

text \<open>
  \<^verbatim>\<open>
  static int coroutine_fn nfs_co_flush(BlockDriverState *bs)
  {
      NFSClient *client = bs->opaque;
      NFSRPC task;

      nfs_co_init_task(client, &task);

      if (nfs_fsync_async(client->context, client->fh, nfs_co_generic_cb,
                          &task) != 0) {
          return -ENOMEM;
      }

      while (!task.complete) {
          nfs_set_events(client);
          qemu_coroutine_yield();
      }

      return task.status;
  }
  \<close>
\<close>

definition nfs_co_flush :: "nat \<Rightarrow> cint \<Rightarrow> turn list \<Rightarrow> state \<Rightarrow> (cint \<times> state) option" where
  "nfs_co_flush self submit turns s =
     (let s1 = nfs_co_init_task self s;
          s2 = call NfsFsyncAsync s1
      in if submit \<noteq> 0 then Some (- ENOMEM, s2)
         else case wait_co turns s2 of
                None \<Rightarrow> None
              | Some s3 \<Rightarrow> Some (status (task s3), s3))"

text \<open>
  \<^verbatim>\<open>
  static int64_t nfs_get_allocated_file_size(BlockDriverState *bs)
  {
      NFSClient *client = bs->opaque;
      NFSRPC task = {0};
      struct stat st;

      task.st = &st;
      if (nfs_fstat_async(client->context, client->fh, nfs_co_generic_cb,
                          &task) != 0) {
          return -ENOMEM;
      }

      while (!task.complete) {
          nfs_set_events(client);
          qemu_aio_wait();
      }

      return (task.status < 0 ? task.status : st.st_blocks * st.st_blksize);
  }
  \<close>
  \<open>st_p\<close> is the address of the local variable \<open>st\<close>, which is not initialised: it
  holds what the memory holds there. The two arms of the conditional have the type of
  the product, signed 64 bits.
\<close>

text \<open>Modelled from the spec: how \<open>nfs_fstat_async\<close> of libnfs, which is not part of the
  sources, completes a request: with status 0 and the metadata, or with a negative error
  number. The guard \<open>task->status == 0 && task->st\<close> of the callback relies on it.\<close>

definition fstat_completion :: "completion \<Rightarrow> bool" where
  "fstat_completion k = (c_status k \<le>s 0)"

definition nfs_get_allocated_file_size ::
  "cint \<Rightarrow> turn list \<Rightarrow> nat \<Rightarrow> state \<Rightarrow> (int64 \<times> state) option" where
  "nfs_get_allocated_file_size submit turns st_p s =
     (let s1 = s\<lparr>task := NFSRPC_zero\<lparr>st := Some st_p\<rparr>\<rparr>;
          s2 = call NfsFstatAsync s1
      in if submit \<noteq> 0 then Some (scast (- ENOMEM), s2)
         else case wait_aio turns s2 of
                None \<Rightarrow> None
              | Some s3 \<Rightarrow>
                  Some (if status (task s3) <s 0 then scast (status (task s3))
                        else st_blocks (stats (mem s3) st_p) * st_blksize (stats (mem s3) st_p),
                        s3))"

subsection \<open>Opening\<close>

text \<open>Modelled from the spec: \<open>strncmp\<close>, \<open>strrchr\<close> and \<open>atoi\<close> of the C library, which
  is not part of the sources. A string is the characters before its terminating NUL.
  \<open>strncmp\<close> compares at most \<open>n\<close> characters, as unsigned bytes; \<open>strrchr\<close> finds the last
  occurrence of a character, here as its index; \<open>atoi\<close> is \<open>(int) strtol(str, NULL, 10)\<close>,
  where \<open>strtol\<close> skips white space, reads a sign and decimal digits and saturates at the
  bounds of a 64-bit \<open>long\<close>, and the conversion to \<open>int\<close> keeps the low 32 bits.\<close>

fun strncmp :: "string \<Rightarrow> string \<Rightarrow> nat \<Rightarrow> int" where
  "strncmp a b 0 = 0"
| "strncmp [] [] (Suc n) = 0"
| "strncmp [] (y # ys) (Suc n) = - 1"
| "strncmp (x # xs) [] (Suc n) = 1"
| "strncmp (x # xs) (y # ys) (Suc n) =
     (if x = y then strncmp xs ys n
      else if (of_char x :: nat) < of_char y then - 1 else 1)"

definition strrchr :: "string \<Rightarrow> char \<Rightarrow> nat option" where
  "strrchr str c =
     (if c \<in> set str
      then Some (length str - 1 - length (takeWhile (\<lambda>x. x \<noteq> c) (rev str)))
      else None)"

definition isspace :: "char \<Rightarrow> bool" where
  "isspace c = ((of_char c :: nat) = 32 \<or> (9 \<le> (of_char c :: nat) \<and> (of_char c :: nat) \<le> 13))"

definition isdigit :: "char \<Rightarrow> bool" where
  "isdigit c = (48 \<le> (of_char c :: nat) \<and> (of_char c :: nat) \<le> 57)"

fun atoi_digits :: "int \<Rightarrow> string \<Rightarrow> int" where
  "atoi_digits acc [] = acc"
| "atoi_digits acc (c # cs) =
     (if isdigit c then atoi_digits (acc * 10 + (int (of_char c) - 48)) cs else acc)"

definition strtol :: "string \<Rightarrow> int" where
  "strtol str =
     (let v = (case dropWhile isspace str of
                 [] \<Rightarrow> 0
               | c # cs \<Rightarrow>
                   if c = CHR ''-'' then - atoi_digits 0 cs
                   else if c = CHR ''+'' then atoi_digits 0 cs
                   else atoi_digits 0 (c # cs))
      in max (- (2 ^ 63)) (min (2 ^ 63 - 1) v))"

definition atoi :: "string \<Rightarrow> cint" where
  "atoi str = word_of_int (strtol str)"

text \<open>Modelled from the spec: \<open>S_ISREG\<close> of \<open>sys/stat.h\<close>, which is not part of the
  sources, with the values of Linux: the file type bits are those of a regular file.\<close>

definition S_ISREG :: "32 word \<Rightarrow> bool" where
  "S_ISREG m = (m AND 0xF000 = 0x8000)"

text \<open>The parsed URL: what \<open>uri_parse\<close> returns for the file name, with the result of
  \<open>query_params_parse\<close> on its query string in place of the string. Both parsers are not
  part of the sources. The field \<open>value\<close> of a parameter is \<open>None\<close> when the parameter has
  no value.\<close>

record QueryParam =
  qp_name :: string
  qp_value :: "string option"

record URI =
  server :: string
  path :: string
  query :: "QueryParam list"

text \<open>What libnfs answers during an open: the context \<open>nfs_init_context\<close> returns, the
  return values of \<open>nfs_mount\<close>, of \<open>nfs_creat\<close> or \<open>nfs_open\<close> with the handle it stores,
  and of \<open>nfs_fstat\<close> with the \<open>struct stat\<close> it fills.\<close>

record engine =
  init_context :: "nfs_context option"
  mount_ret :: cint
  open_ret :: cint
  open_fh :: nat
  fstat_ret :: cint
  fstat_st :: stat

text \<open>
  \<^verbatim>\<open>
      for (i = 0; i < qp->n; i++) {
          if (!qp->p[i].value) {
              error_setg(errp, "Value for NFS parameter expected: %s",
                         qp->p[i].name);
              goto fail;
          }
          if (!strncmp(qp->p[i].name, "uid", 3)) {
              nfs_set_uid(client->context, atoi(qp->p[i].value));
          } else if (!strncmp(qp->p[i].name, "gid", 3)) {
              nfs_set_gid(client->context, atoi(qp->p[i].value));
          } else if (!strncmp(qp->p[i].name, "tcp-syncnt", 10)) {
              nfs_set_tcp_syncnt(client->context, atoi(qp->p[i].value));
          } else {
              error_setg(errp, "Unknown NFS parameter name: %s",
                         qp->p[i].name);
              goto fail;
          }
      }
  \<close>
  The result is \<open>True\<close> when the loop leaves by \<open>goto fail\<close>.
\<close>

fun nfs_client_open_params :: "QueryParam list \<Rightarrow> state \<Rightarrow> bool \<times> state" where
  "nfs_client_open_params [] s = (False, s)"
| "nfs_client_open_params (p # ps) s =
     (case qp_value p of
        None \<Rightarrow> (True, call (ErrorSetg (''Value for NFS parameter expected: '' @ qp_name p)) s)
      | Some v \<Rightarrow>
          if strncmp (qp_name p) ''uid'' 3 = 0
          then nfs_client_open_params ps (call (NfsSetUid (atoi v)) s)
          else if strncmp (qp_name p) ''gid'' 3 = 0
          then nfs_client_open_params ps (call (NfsSetGid (atoi v)) s)
          else if strncmp (qp_name p) ''tcp-syncnt'' 10 = 0
          then nfs_client_open_params ps (call (NfsSetTcpSyncnt (atoi v)) s)
          else (True, call (ErrorSetg (''Unknown NFS parameter name: '' @ qp_name p)) s))"

text \<open>What the loop accepts: a parameter that has a value and whose name begins with one
  of the three names.\<close>

definition accepted :: "QueryParam \<Rightarrow> bool" where
  "accepted p = (qp_value p \<noteq> None \<and>
     (take 3 (qp_name p) = ''uid'' \<or> take 3 (qp_name p) = ''gid'' \<or>
      take 10 (qp_name p) = ''tcp-syncnt''))"

text \<open>
  \<^verbatim>\<open>
  static int64_t nfs_client_open(NFSClient *client, const char *filename,
                                 int flags, Error **errp)
  {
      int ret = -EINVAL, i;
      struct stat st;
      URI *uri;
      QueryParams *qp = NULL;
      char *file = NULL, *strp = NULL;

      uri = uri_parse(filename);
      if (!uri) {
          error_setg(errp, "Invalid URL specified");
          goto fail;
      }
      strp = strrchr(uri->path, '/');
      if (strp == NULL) {
          error_setg(errp, "Invalid URL specified");
          goto fail;
      }
      file = g_strdup(strp);
      *strp = 0;

      client->context = nfs_init_context();
      if (client->context == NULL) {
          error_setg(errp, "Failed to init NFS context");
          goto fail;
      }

      qp = query_params_parse(uri->query);
      for (i = 0; i < qp->n; i++) { ... }

      ret = nfs_mount(client->context, uri->server, uri->path);
      if (ret < 0) {
          error_setg(errp, "Failed to mount nfs share: %s",
                     nfs_get_error(client->context));
          goto fail;
      }

      if (flags & O_CREAT) {
          ret = nfs_creat(client->context, file, 0600, &client->fh);
          if (ret < 0) {
              error_setg(errp, "Failed to create file: %s",
                         nfs_get_error(client->context));
              goto fail;
          }
      } else {
          ret = nfs_open(client->context, file, flags, &client->fh);
          if (ret < 0) {
              error_setg(errp, "Failed to open file : %s",
                         nfs_get_error(client->context));
              goto fail;
          }
      }

      ret = nfs_fstat(client->context, client->fh, &st);
      if (ret < 0) {
          error_setg(errp, "Failed to fstat file: %s",
                     nfs_get_error(client->context));
          goto fail;
      }

      ret = DIV_ROUND_UP(st.st_size, BDRV_SECTOR_SIZE);
      client->has_zero_init = S_ISREG(st.st_mode);
      goto out;
  fail:
      nfs_client_close(client);
  out:
      if (qp) {
          query_params_free(qp);
      }
      uri_free(uri);
      g_free(file);
      return ret;
  }
  \<close>
  \<open>nfs_client_open_body\<close> is the function up to the labels: its result is whether it left
  by \<open>goto fail\<close>, the value of the variable \<open>ret\<close> and the state. \<open>ret\<close> is an \<open>int\<close>:
  the assignment of the quotient, an unsigned 64-bit value, keeps its low 32 bits, and the
  return statement extends the sign to the 64 bits of the result. The mode \<open>0600\<close> is
  octal, 384.
\<close>

definition nfs_client_open_body ::
  "engine \<Rightarrow> URI option \<Rightarrow> cint \<Rightarrow> state \<Rightarrow> bool \<times> cint \<times> state" where
  "nfs_client_open_body eng uri_opt flags s =
     (case uri_opt of
        None \<Rightarrow> (True, - EINVAL, call (ErrorSetg ''Invalid URL specified'') s)
      | Some uri \<Rightarrow>
     (case strrchr (path uri) CHR ''/'' of
        None \<Rightarrow> (True, - EINVAL, call (ErrorSetg ''Invalid URL specified'') s)
      | Some k \<Rightarrow>
     (let file = drop k (path uri);
          dir = take k (path uri);
          s1 = s\<lparr>client := (client s)\<lparr>context_p := init_context eng\<rparr>\<rparr>
      in case context_p (client s1) of
           None \<Rightarrow> (True, - EINVAL, call (ErrorSetg ''Failed to init NFS context'') s1)
         | Some c \<Rightarrow>
     (case nfs_client_open_params (query uri) s1 of
        (True, s2) \<Rightarrow> (True, - EINVAL, s2)
      | (False, s2) \<Rightarrow>
     (let s3 = call (NfsMount (server uri) dir) s2
      in if mount_ret eng <s 0
         then (True, mount_ret eng,
               call (ErrorSetg (''Failed to mount nfs share: '' @ ctx_error c)) s3)
         else
     (let s4 = (if flags AND O_CREAT \<noteq> 0 then call (NfsCreat file 384) s3
                else call (NfsOpen file flags) s3)
      in if open_ret eng <s 0
         then (True, open_ret eng,
               call (ErrorSetg ((if flags AND O_CREAT \<noteq> 0 then ''Failed to create file: ''
                                 else ''Failed to open file : '') @ ctx_error c)) s4)
         else
     (let s5 = s4\<lparr>client := (client s4)\<lparr>fh := Some (open_fh eng)\<rparr>\<rparr>;
          s6 = call NfsFstat s5
      in if fstat_ret eng <s 0
         then (True, fstat_ret eng,
               call (ErrorSetg (''Failed to fstat file: '' @ ctx_error c)) s6)
         else
           (False, ucast (DIV_ROUND_UP (st_size (fstat_st eng)) BDRV_SECTOR_SIZE),
            s6\<lparr>client := (client s6)\<lparr>has_zero_init := S_ISREG (st_mode (fstat_st eng))\<rparr>\<rparr>))))))))"

definition nfs_client_open :: "engine \<Rightarrow> URI option \<Rightarrow> cint \<Rightarrow> state \<Rightarrow> int64 \<times> state" where
  "nfs_client_open eng uri_opt flags s =
     (case nfs_client_open_body eng uri_opt flags s of
        (True, ret, s1) \<Rightarrow> (scast ret, nfs_client_close s1)
      | (False, ret, s1) \<Rightarrow> (scast ret, s1))"

text \<open>
  \<^verbatim>\<open>
  static int nfs_file_open(BlockDriverState *bs, QDict *options, int flags,
                           Error **errp) {
      NFSClient *client = bs->opaque;
      int64_t ret;
      QemuOpts *opts;
      Error *local_err = NULL;

      opts = qemu_opts_create_nofail(&runtime_opts);
      qemu_opts_absorb_qdict(opts, options, &local_err);
      if (error_is_set(&local_err)) {
          qerror_report_err(local_err);
          error_free(local_err);
          return -EINVAL;
      }
      ret = nfs_client_open(client, qemu_opt_get(opts, "filename"),
                            (flags & BDRV_O_RDWR) ? O_RDWR : O_RDONLY,
                            errp);
      if (ret < 0) {
          return ret;
      }
      bs->total_sectors = ret;
      return 0;
  }
  \<close>
  \<open>opts_err\<close> says whether absorbing the options failed, \<open>uri_opt\<close> is the parsed file
  name option, \<open>total_sectors\<close> is the field of \<open>bs\<close> before the call; the result has the
  field after it. Modelled from the spec: the flag values \<open>BDRV_O_RDWR\<close>, \<open>O_RDWR\<close> and
  \<open>O_RDONLY\<close> of headers that are not part of the sources.
\<close>

definition BDRV_O_RDWR :: cint where "BDRV_O_RDWR = 2"
definition O_RDWR :: cint where "O_RDWR = 2"
definition O_RDONLY :: cint where "O_RDONLY = 0"

definition nfs_file_open ::
  "engine \<Rightarrow> bool \<Rightarrow> URI option \<Rightarrow> cint \<Rightarrow> int64 \<Rightarrow> state \<Rightarrow> cint \<times> int64 \<times> state" where
  "nfs_file_open eng opts_err uri_opt flags total_sectors s =
     (if opts_err then (- EINVAL, total_sectors, s)
      else case nfs_client_open eng uri_opt
                  (if flags AND BDRV_O_RDWR \<noteq> 0 then O_RDWR else O_RDONLY) s of
             (ret, s1) \<Rightarrow>
               if ret <s 0 then (ucast ret, total_sectors, s1) else (0, ret, s1))"

subsection \<open>Concrete inputs\<close>

text \<open>An open client whose engine wants to read, a four-byte vector at every address, and
  an engine that answers every call of an open with success.\<close>

definition ex_ctx :: nfs_context where
  "ex_ctx = \<lparr>ctx_fd = 3, ctx_events = 1, ctx_error = ''server down''\<rparr>"

definition ex_stat :: stat where
  "ex_stat = \<lparr>st_mode = 0x81A4, st_size = 1000, st_blksize = 512, st_blocks = 8\<rparr>"

definition ex_mem :: memory where
  "ex_mem = \<lparr>iovecs = (\<lambda>_. \<lparr>flat = [9, 9, 9, 9]\<rparr>),
             stats = (\<lambda>_. \<lparr>st_mode = 0, st_size = 0, st_blksize = 0, st_blocks = 0\<rparr>)\<rparr>"

definition ex_state :: state where
  "ex_state = \<lparr>client = \<lparr>context_p = Some ex_ctx, fh = Some 1, events = 0,
                            has_zero_init = True\<rparr>,
               task = NFSRPC_zero, mem = ex_mem, scheduled = [], calls = []\<rparr>"

text \<open>The state in which a read waits: the task of the running coroutine 1, with the
  vector at address 0.\<close>

definition ex_read_state :: state where
  "ex_read_state = ex_state\<lparr>task := NFSRPC_zero\<lparr>iov := Some 0, co := Some 1\<rparr>\<rparr>"

text \<open>A closed client, before an open.\<close>

definition ex_closed :: state where
  "ex_closed = ex_state\<lparr>client := NFSClient_zero\<rparr>"

definition ex_data :: payload where
  "ex_data = \<lparr>as_bytes = [1, 2, 3, 4, 5, 6], as_stat = ex_stat\<rparr>"

definition ex_turn :: "cint \<Rightarrow> turn" where
  "ex_turn a = \<lparr>t_write = False,
               t_completion = Some \<lparr>c_status = a, c_data = ex_data, c_bh = 7\<rparr>,
               t_events = 4\<rparr>"

definition ex_idle :: turn where
  "ex_idle = \<lparr>t_write = True, t_completion = None, t_events = 1\<rparr>"

definition ex_engine :: "int64 \<Rightarrow> engine" where
  "ex_engine sz = \<lparr>init_context = Some ex_ctx, mount_ret = 0, open_ret = 0, open_fh = 1,
                   fstat_ret = 0, fstat_st = ex_stat\<lparr>st_size := sz\<rparr>\<rparr>"

definition ex_uri :: "QueryParam list \<Rightarrow> URI" where
  "ex_uri ps = \<lparr>server = ''host'', path = ''/export/disk.img'', query = ps\<rparr>"

section \<open>Theorems\<close>

subsection \<open>The event bridge\<close>

lemma nfs_set_events_same:
  assumes "context_p (client s) = Some c" and "ctx_events c = events (client s)"
  shows "nfs_set_events s = Some s"
  using assms by (simp add: nfs_set_events_def Let_def)

lemma nfs_set_events_differs:
  assumes "context_p (client s) = Some c" and "ctx_events c \<noteq> events (client s)"
  shows "nfs_set_events s =
           Some (s\<lparr>client := (client s)\<lparr>events := ctx_events c\<rparr>,
                   calls := calls s @ [AioSetFdHandler (ctx_fd c)
                              (ctx_events c AND POLLIN \<noteq> 0) (ctx_events c AND POLLOUT \<noteq> 0) True]\<rparr>)"
  using assms by (simp add: nfs_set_events_def call_def Let_def)

text \<open>C9 (the update of the event bridge). When the client has a context: if the mask
  the engine wants equals the client's stored mask, no call is made; if it differs,
  the descriptor is registered once, with the read handler exactly when the read bit is
  in the mask and the write handler exactly when the write bit is; in both cases the
  stored mask is the engine's mask afterwards, and nothing else changes.\<close>

theorem nfs_set_events_registers:
  assumes "context_p (client s) = Some c"
  shows "nfs_set_events s =
           Some (s\<lparr>client := (client s)\<lparr>events := ctx_events c\<rparr>,
                   calls := calls s @
                     (if ctx_events c = events (client s) then []
                      else [AioSetFdHandler (ctx_fd c)
                              (ctx_events c AND POLLIN \<noteq> 0) (ctx_events c AND POLLOUT \<noteq> 0)
                              True])\<rparr>)"
proof (cases "ctx_events c = events (client s)")
  case True
  with assms show ?thesis by (simp add: nfs_set_events_same)
next
  case False
  with assms show ?thesis by (simp add: nfs_set_events_differs)
qed

theorem nfs_set_events_registers_witness:
  "context_p (client ex_state) = Some ex_ctx \<and>
   nfs_set_events ex_state =
     Some (ex_state\<lparr>client := (client ex_state)\<lparr>events := 1\<rparr>,
                    calls := [AioSetFdHandler 3 True False True]\<rparr>)"
  using nfs_set_events_registers [of ex_state ex_ctx]
  by (simp add: ex_state_def ex_ctx_def POLLIN_def POLLOUT_def)

subsection \<open>Closing\<close>

lemma nfs_client_close_calls:
  "calls (nfs_client_close s) = calls s @
     (case context_p (client s) of
        None \<Rightarrow> []
      | Some c \<Rightarrow> (case fh (client s) of None \<Rightarrow> [] | Some h \<Rightarrow> [NfsClose h]) @
                  [AioSetFdHandler (ctx_fd c) False False False, NfsDestroyContext])"
  by (simp add: nfs_client_close_def call_def Let_def split: option.splits)

lemma nfs_client_close_closed:
  "context_p (client s) = None \<Longrightarrow> nfs_client_close s = s\<lparr>client := NFSClient_zero\<rparr>"
  by (simp add: nfs_client_close_def)

text \<open>C8 (close is idempotent and total). On every state, whatever the context and the
  file handle of the client are, one call leaves the client all zero, and a second call
  returns the state the first one left: the client is unchanged and no call is added.\<close>

theorem nfs_client_close_idempotent:
  "client (nfs_client_close s) = NFSClient_zero \<and>
   nfs_client_close (nfs_client_close s) = nfs_client_close s \<and>
   calls (nfs_client_close (nfs_client_close s)) = calls (nfs_client_close s)"
proof -
  have zero: "client (nfs_client_close s) = NFSClient_zero"
    by (simp add: nfs_client_close_def Let_def)
  then have "context_p (client (nfs_client_close s)) = None"
    by (simp add: NFSClient_zero_def)
  then have "nfs_client_close (nfs_client_close s) =
             (nfs_client_close s)\<lparr>client := NFSClient_zero\<rparr>"
    by (rule nfs_client_close_closed)
  also have "\<dots> = nfs_client_close s"
    by (metis state.surjective state.update_convs(1) zero)
  finally show ?thesis using zero by simp
qed


subsection \<open>The callback and the wait loop\<close>

lemmas cb_defs = nfs_co_generic_cb_def nfs_co_generic_cb_stmts_def cb_complete_def cb_status_def
  cb_iov_def cb_st_def cb_report_def cb_bh_def call_def

lemma neg_EIO_nonzero: "EIO \<noteq> (0::cint)" "- EIO <s (0::cint)" "\<not> 0 <s - EIO"
  by (simp_all add: EIO_def word_sless_alt)

lemma cb_task:
  "task (nfs_co_generic_cb a nfs d b s) =
     (task s)\<lparr>complete := 1,
              status := (case iov (task s) of
                           None \<Rightarrow> a
                         | Some p \<Rightarrow> if 0 <s a \<and> int (qiov_size (iovecs (mem s) p)) < sint a
                                     then - EIO else a),
              bh := (case co (task s) of None \<Rightarrow> bh (task s) | Some c \<Rightarrow> Some b)\<rparr>"
  by (simp add: cb_defs neg_EIO_nonzero split: option.splits)

lemma cb_mem:
  "mem (nfs_co_generic_cb a nfs d b s) =
     (mem s)\<lparr>iovecs := (case iov (task s) of
                           None \<Rightarrow> iovecs (mem s)
                         | Some p \<Rightarrow>
                             if 0 <s a \<and> sint a \<le> int (qiov_size (iovecs (mem s) p))
                             then (iovecs (mem s))
                                    (p := qemu_iovec_from_buf (iovecs (mem s) p) 0 (as_bytes d)
                                            (nat (sint a)))
                             else iovecs (mem s)),
             stats := (case st (task s) of
                         None \<Rightarrow> stats (mem s)
                       | Some p \<Rightarrow> if a = 0 then (stats (mem s))(p := as_stat d)
                                   else stats (mem s))\<rparr>"
  by (simp add: cb_defs neg_EIO_nonzero split: option.splits)

lemma cb_client: "client (nfs_co_generic_cb a nfs d b s) = client s"
  by (simp add: cb_defs split: option.splits)

lemma cb_scheduled:
  "scheduled (nfs_co_generic_cb a nfs d b s) =
     scheduled s @ (case co (task s) of None \<Rightarrow> [] | Some c \<Rightarrow> [b])"
  by (simp add: cb_defs split: option.splits)

lemma cb_calls:
  "calls (nfs_co_generic_cb a nfs d b s) =
     calls s @
     (if status (task (nfs_co_generic_cb a nfs d b s)) <s 0
      then [ErrorReport (''NFS Error: '' @ ctx_error nfs)] else []) @
     (case co (task s) of None \<Rightarrow> [] | Some c \<Rightarrow> [BhSchedule b])"
  by (simp add: cb_defs neg_EIO_nonzero split: option.splits)

lemma cb_cong:
  assumes "task s1 = task s2" and "mem s1 = mem s2"
  shows "task (nfs_co_generic_cb a n1 d b s1) = task (nfs_co_generic_cb a n2 d b s2)"
    and "mem (nfs_co_generic_cb a n1 d b s1) = mem (nfs_co_generic_cb a n2 d b s2)"
  using assms by (simp_all add: cb_task cb_mem cong: option.case_cong if_cong)

lemma nfs_set_events_keeps:
  assumes "context_p (client s) = Some c"
  shows "\<exists>s'. nfs_set_events s = Some s' \<and> task s' = task s \<and> mem s' = mem s \<and>
              context_p (client s') = Some c"
  using assms by (simp add: nfs_set_events_def Let_def call_def)

lemma bh_cb_keeps:
  "task (nfs_co_generic_bh_cb s) = task s" "mem (nfs_co_generic_bh_cb s) = mem s"
  "client (nfs_co_generic_bh_cb s) = client s"
  by (simp_all add: nfs_co_generic_bh_cb_def call_def Let_def)

lemma nfs_service_idle:
  assumes "context_p (client s) = Some c" and "t_completion t = None"
  shows "\<exists>s' c'. nfs_service t ev s = Some s' \<and> task s' = task s \<and> mem s' = mem s \<and>
              context_p (client s') = Some c'"
  using assms by (simp add: nfs_service_def Let_def call_def)

lemma nfs_service_completes:
  assumes "context_p (client s) = Some c" and "t_completion t = Some k"
  shows "\<exists>s' c'. nfs_service t ev s = Some s' \<and>
              task s' = task (nfs_co_generic_cb (c_status k) nfs (c_data k) (c_bh k) s) \<and>
              mem s' = mem (nfs_co_generic_cb (c_status k) nfs (c_data k) (c_bh k) s) \<and>
              context_p (client s') = Some c'"
  using assms by (simp add: nfs_service_def Let_def call_def cb_task cb_mem cb_client
      cong: option.case_cong if_cong)

lemma process_idle:
  assumes "context_p (client s) = Some c" and "t_completion t = None"
  shows "\<exists>s' c'. Option.bind (nfs_service t ev s) nfs_set_events = Some s' \<and>
              task s' = task s \<and> mem s' = mem s \<and> context_p (client s') = Some c'"
proof -
  from nfs_service_idle [OF assms, of ev] obtain s1 c1 where
    s1: "nfs_service t ev s = Some s1" "task s1 = task s" "mem s1 = mem s"
        "context_p (client s1) = Some c1" by blast
  from nfs_set_events_keeps [OF s1(4)] obtain s2 where
    s2: "nfs_set_events s1 = Some s2" "task s2 = task s1" "mem s2 = mem s1"
        "context_p (client s2) = Some c1" by blast
  show ?thesis using s1 s2 by simp
qed

lemma process_completes:
  assumes "context_p (client s) = Some c" and "t_completion t = Some k"
  shows "\<exists>s' c'. Option.bind (nfs_service t ev s) nfs_set_events = Some s' \<and>
              task s' = task (nfs_co_generic_cb (c_status k) nfs (c_data k) (c_bh k) s) \<and>
              mem s' = mem (nfs_co_generic_cb (c_status k) nfs (c_data k) (c_bh k) s) \<and>
              context_p (client s') = Some c'"
proof -
  from nfs_service_completes [OF assms, of ev nfs] obtain s1 c1 where
    s1: "nfs_service t ev s = Some s1"
        "task s1 = task (nfs_co_generic_cb (c_status k) nfs (c_data k) (c_bh k) s)"
        "mem s1 = mem (nfs_co_generic_cb (c_status k) nfs (c_data k) (c_bh k) s)"
        "context_p (client s1) = Some c1" by blast
  from nfs_set_events_keeps [OF s1(4)] obtain s2 where
    s2: "nfs_set_events s1 = Some s2" "task s2 = task s1" "mem s2 = mem s1"
        "context_p (client s2) = Some c1" by blast
  show ?thesis using s1 s2 by simp
qed

lemma reactor_turn_idle:
  assumes "context_p (client s) = Some c" and "t_completion t = None"
  shows "\<exists>s' c'. reactor_turn t s = Some s' \<and> task s' = task s \<and> mem s' = mem s \<and>
              context_p (client s') = Some c'"
proof (cases "t_write t")
  case True
  from process_idle [OF assms, of POLLOUT] show ?thesis using True
    by (auto simp: reactor_turn_def nfs_process_write_def bh_cb_keeps)
next
  case False
  from process_idle [OF assms, of POLLIN] show ?thesis using False
    by (auto simp: reactor_turn_def nfs_process_read_def bh_cb_keeps)
qed

lemma reactor_turn_completes:
  assumes "context_p (client s) = Some c" and "t_completion t = Some k"
  shows "\<exists>s' c'. reactor_turn t s = Some s' \<and>
              task s' = task (nfs_co_generic_cb (c_status k) nfs (c_data k) (c_bh k) s) \<and>
              mem s' = mem (nfs_co_generic_cb (c_status k) nfs (c_data k) (c_bh k) s) \<and>
              context_p (client s') = Some c'"
proof (cases "t_write t")
  case True
  from process_completes [OF assms, of POLLOUT nfs] show ?thesis using True
    by (auto simp: reactor_turn_def nfs_process_write_def bh_cb_keeps)
next
  case False
  from process_completes [OF assms, of POLLIN nfs] show ?thesis using False
    by (auto simp: reactor_turn_def nfs_process_read_def bh_cb_keeps)
qed

lemma wait_co_complete: "complete (task s) \<noteq> 0 \<Longrightarrow> wait_co turns s = Some s"
  by (cases turns) simp_all

lemma wait_co_completes:
  assumes "context_p (client s) = Some c" and "complete (task s) = 0"
    and "first_completion turns = Some k"
  shows "\<exists>s'. wait_co turns s = Some s' \<and>
              task s' = task (nfs_co_generic_cb (c_status k) nfs (c_data k) (c_bh k) s) \<and>
              mem s' = mem (nfs_co_generic_cb (c_status k) nfs (c_data k) (c_bh k) s)"
  using assms
proof (induction turns arbitrary: s c)
  case Nil
  then show ?case by simp
next
  case (Cons t ts)
  from nfs_set_events_keeps [OF Cons.prems(1)] obtain s1 where
    s1: "nfs_set_events s = Some s1" "task s1 = task s" "mem s1 = mem s"
        "context_p (client s1) = Some c" by blast
  show ?case
  proof (cases "t_completion t")
    case None
    from reactor_turn_idle [OF s1(4) None] obtain s2 c2 where
      s2: "reactor_turn t s1 = Some s2" "task s2 = task s1" "mem s2 = mem s1"
          "context_p (client s2) = Some c2" by blast
    from None Cons.prems(3) have fc: "first_completion ts = Some k" by simp
    from s2 s1 Cons.prems(2) have "complete (task s2) = 0" by simp
    from Cons.IH [OF s2(4) this fc] obtain s' where
      "wait_co ts s2 = Some s'"
      "task s' = task (nfs_co_generic_cb (c_status k) nfs (c_data k) (c_bh k) s2)"
      "mem s' = mem (nfs_co_generic_cb (c_status k) nfs (c_data k) (c_bh k) s2)" by blast
    moreover have "task s2 = task s" "mem s2 = mem s" using s1 s2 by simp_all
    ultimately show ?thesis using s1 s2 Cons.prems(2)
      by (simp add: qemu_coroutine_yield_def cb_task cb_mem cong: option.case_cong if_cong)
  next
    case (Some k')
    with Cons.prems(3) have kk: "k' = k" by simp
    from reactor_turn_completes [OF s1(4) Some, of nfs] obtain s2 where
      s2: "reactor_turn t s1 = Some s2"
          "task s2 = task (nfs_co_generic_cb (c_status k') nfs (c_data k') (c_bh k') s1)"
          "mem s2 = mem (nfs_co_generic_cb (c_status k') nfs (c_data k') (c_bh k') s1)"
          by blast
    have "complete (task s2) \<noteq> 0" using s2 by (simp add: cb_task)
    then have "wait_co ts s2 = Some s2" by (rule wait_co_complete)
    then show ?thesis using s1 s2 kk Cons.prems(2)
      by (simp add: qemu_coroutine_yield_def cb_task cb_mem cong: option.case_cong if_cong)
  qed
qed

lemma wait_co_suspended:
  assumes "context_p (client s) = Some c" and "complete (task s) = 0"
    and "first_completion turns = None"
  shows "wait_co turns s = None"
  using assms
proof (induction turns arbitrary: s c)
  case Nil
  then show ?case by simp
next
  case (Cons t ts)
  from nfs_set_events_keeps [OF Cons.prems(1)] obtain s1 where
    s1: "nfs_set_events s = Some s1" "task s1 = task s" "mem s1 = mem s"
        "context_p (client s1) = Some c" by blast
  from Cons.prems(3) have none: "t_completion t = None" and fc: "first_completion ts = None"
    by (simp_all split: option.splits)
  from reactor_turn_idle [OF s1(4) none] obtain s2 c2 where
      s2: "reactor_turn t s1 = Some s2" "task s2 = task s1" "mem s2 = mem s1"
          "context_p (client s2) = Some c2" by blast
  from s2 s1 Cons.prems(2) have "complete (task s2) = 0" by simp
  from Cons.IH [OF s2(4) this fc] show ?case using s1 s2 Cons.prems(2)
    by (simp add: qemu_coroutine_yield_def)
qed

lemma wait_aio_eq: "wait_aio turns s = wait_co turns s"
  by (induction turns arbitrary: s)
     (simp_all add: qemu_aio_wait_def qemu_coroutine_yield_def split: option.splits)


subsection \<open>The operations\<close>

lemma init_task_props:
  "task (nfs_co_init_task self s) = NFSRPC_zero\<lparr>co := Some self\<rparr>"
  "mem (nfs_co_init_task self s) = mem s"
  "client (nfs_co_init_task self s) = client s"
  by (simp_all add: nfs_co_init_task_def)

lemma sint_scast_64: "sint (scast (a :: cint) :: uint64) = sint a"
  by (rule sint_up_scast) (simp add: is_up)

lemma sint_sectors:
  fixes nb :: cint
  assumes "0 \<le>s nb"
  shows "sint (scast nb * BDRV_SECTOR_SIZE :: uint64) = sint nb * 512"
proof -
  have lo: "0 \<le> sint nb" using assms by (simp add: word_sle_eq)
  have hi: "sint nb < 2 ^ 31" using sint_lt [of nb] by simp
  have "sint (scast nb * BDRV_SECTOR_SIZE :: uint64) = signed_take_bit 63 (sint nb * 512)"
    by (simp add: sint_word_mult sint_scast_64 BDRV_SECTOR_SIZE_def)
  also have "\<dots> = sint nb * 512"
    using lo hi by (intro signed_take_bit_int_eq_self) auto
  finally show ?thesis .
qed

lemma scast_status_eq:
  fixes a nb :: cint
  assumes "0 \<le>s nb"
  shows "((scast a :: uint64) = scast nb * BDRV_SECTOR_SIZE) = (sint a = sint nb * 512)"
  by (metis assms sint_scast_64 sint_sectors word_eq_iff_signed)

lemma uint_nonneg_sint:
  fixes x :: uint64
  assumes "0 \<le> sint x"
  shows "uint x < 2 ^ 63"
proof (rule ccontr)
  assume "\<not> uint x < 2 ^ 63"
  then have ge: "9223372036854775808 \<le> uint x" by simp
  have lt: "uint x < 18446744073709551616" using uint_lt2p [of x] by simp
  have "uint x + 9223372036854775808 = (uint x - 9223372036854775808) + 18446744073709551616"
    by simp
  then have "(uint x + 9223372036854775808) mod 18446744073709551616 =
             (uint x - 9223372036854775808) mod 18446744073709551616"
    by (simp only: mod_add_self2)
  also have "\<dots> = uint x - 9223372036854775808"
    by (rule mod_pos_pos_trivial) (use ge lt in simp_all)
  finally have m: "(uint x + 9223372036854775808) mod 18446744073709551616 =
                   uint x - 9223372036854775808" .
  have "sint x = (uint x + 9223372036854775808) mod 18446744073709551616 - 9223372036854775808"
    by (simp add: sint_uint signed_take_bit_eq_take_bit_shift take_bit_eq_mod)
  with m lt assms show False by simp
qed

lemma g_malloc_sectors:
  fixes nb :: cint
  assumes "0 \<le>s nb"
  shows "\<not> g_malloc_aborts (scast nb * BDRV_SECTOR_SIZE)"
proof -
  have "0 \<le> sint (scast nb * BDRV_SECTOR_SIZE :: uint64)"
    using assms by (simp add: sint_sectors word_sle_eq)
  then have "uint (scast nb * BDRV_SECTOR_SIZE :: uint64) < 2 ^ 63"
    by (rule uint_nonneg_sint)
  then show ?thesis by (simp add: g_malloc_aborts_def)
qed


text \<open>C3 (what a write returns). For a write of \<open>nb_sectors\<close> sectors, a count that is
  not negative, whose submission is accepted and whose request the engine completes: the
  task's status is the status the engine delivered; the write returns 0 exactly when that
  status is \<open>nb_sectors\<close> times 512; a negative status is returned as it is; every other
  status gives \<open>-EIO\<close>.\<close>

theorem nfs_co_writev_result:
  assumes "context_p (client s) = Some c" and "first_completion turns = Some k"
    and "0 \<le>s nb_sectors"
  shows "\<exists>r s'. nfs_co_writev self 0 turns sector_num nb_sectors iov_p s = Some (r, s') \<and>
           status (task s') = c_status k \<and>
           (r = 0) = (sint (status (task s')) = sint nb_sectors * 512) \<and>
           (sint (status (task s')) < 0 \<longrightarrow> r = status (task s')) \<and>
           (0 \<le> sint (status (task s')) \<and> sint (status (task s')) \<noteq> sint nb_sectors * 512
              \<longrightarrow> r = - EIO)"
proof -
  define s2 where "s2 = call (NfsPwriteAsync (sector_num * BDRV_SECTOR_SIZE)
      (scast nb_sectors * BDRV_SECTOR_SIZE)
      (qemu_iovec_to_buf (iovecs (mem (nfs_co_init_task self s)) iov_p) 0
         (unat (scast nb_sectors * BDRV_SECTOR_SIZE :: uint64)))) (nfs_co_init_task self s)"
  have ctx: "context_p (client s2) = Some c"
    using assms(1) by (simp add: s2_def call_def init_task_props)
  have inc: "complete (task s2) = 0"
    by (simp add: s2_def call_def init_task_props NFSRPC_zero_def)
  from wait_co_completes [OF ctx inc assms(2), of c] obtain s' where
    w: "wait_co turns s2 = Some s'"
       "task s' = task (nfs_co_generic_cb (c_status k) c (c_data k) (c_bh k) s2)" by blast
  have st: "status (task s') = c_status k"
    using w(2) by (simp add: cb_task s2_def call_def init_task_props NFSRPC_zero_def)
  have nz: "c_status k <s 0 \<Longrightarrow> c_status k \<noteq> 0" by auto
  have neg: "sint (c_status k) < 0 \<Longrightarrow> sint (c_status k) \<noteq> sint nb_sectors * 512"
    using assms(3) by (simp add: word_sle_eq)
  show ?thesis
    using w(1) st nz neg neg_EIO_nonzero g_malloc_sectors [OF assms(3)]
    by (simp add: nfs_co_writev_def Let_def s2_def [symmetric] scast_status_eq [OF assms(3)]
        word_sless_alt)
qed


theorem nfs_co_writev_result_witness:
  "context_p (client ex_state) = Some ex_ctx \<and>
   first_completion [ex_idle, ex_turn 1024] = Some \<lparr>c_status = 1024, c_data = ex_data, c_bh = 7\<rparr> \<and>
   (0::cint) \<le>s 2 \<and>
   (\<exists>s'. nfs_co_writev 1 0 [ex_idle, ex_turn 1024] 0 2 0 ex_state = Some (0, s') \<and>
         status (task s') = 1024)"
  using nfs_co_writev_result [of ex_state ex_ctx "[ex_idle, ex_turn 1024]"
      "\<lparr>c_status = 1024, c_data = ex_data, c_bh = 7\<rparr>" 2 1 0 0]
  by (auto simp: ex_state_def ex_idle_def ex_turn_def word_sle_eq)

text \<open>C6 (what a flush returns). When the submission is accepted and the engine completes
  the request, the flush returns the status the engine delivered, which is the status of
  the completed task, whatever its sign.\<close>

theorem nfs_co_flush_status:
  assumes "context_p (client s) = Some c" and "first_completion turns = Some k"
  shows "\<exists>s'. nfs_co_flush self 0 turns s = Some (c_status k, s') \<and>
              status (task s') = c_status k \<and> complete (task s') = 1"
proof -
  let ?s2 = "call NfsFsyncAsync (nfs_co_init_task self s)"
  have ctx: "context_p (client ?s2) = Some c"
    using assms(1) by (simp add: call_def init_task_props)
  have inc: "complete (task ?s2) = 0"
    by (simp add: call_def init_task_props NFSRPC_zero_def)
  from wait_co_completes [OF ctx inc assms(2), of c] obtain s' where
    w: "wait_co turns ?s2 = Some s'"
       "task s' = task (nfs_co_generic_cb (c_status k) c (c_data k) (c_bh k) ?s2)" by blast
  have "status (task s') = c_status k" "complete (task s') = 1"
    using w(2) by (simp_all add: cb_task call_def init_task_props NFSRPC_zero_def)
  then show ?thesis using w(1) by (simp add: nfs_co_flush_def Let_def)
qed

theorem nfs_co_flush_status_witness:
  "context_p (client ex_state) = Some ex_ctx \<and>
   first_completion [ex_idle, ex_turn (- 5)] = Some \<lparr>c_status = - 5, c_data = ex_data, c_bh = 7\<rparr> \<and>
   (\<exists>s'. nfs_co_flush 1 0 [ex_idle, ex_turn (- 5)] ex_state = Some (- 5, s') \<and>
         status (task s') = - 5)"
  using nfs_co_flush_status [of ex_state ex_ctx "[ex_idle, ex_turn (- 5)]"
      "\<lparr>c_status = - 5, c_data = ex_data, c_bh = 7\<rparr>" 1]
  by (auto simp: ex_state_def ex_idle_def ex_turn_def)

lemma qiov_size_from_buf [simp]: "qiov_size (qemu_iovec_from_buf q off buf n) = qiov_size q"
  by (simp add: qiov_size_def qemu_iovec_from_buf_def)

lemma qiov_size_memset [simp]: "qiov_size (qemu_iovec_memset q off c n) = qiov_size q"
  by (simp add: qiov_size_def qemu_iovec_memset_def)

lemma memset_tail:
  assumes "n \<le> qiov_size q"
  shows "drop n (flat (qemu_iovec_memset q n c (qiov_size q - n))) = replicate (qiov_size q - n) c"
  using assms
  by (intro nth_equalityI) (auto simp: qemu_iovec_memset_def qiov_size_def)

lemma from_buf_memset:
  assumes "n \<le> qiov_size q" and "n \<le> length buf"
  shows "flat (qemu_iovec_memset (qemu_iovec_from_buf q 0 buf n) n 0 (qiov_size q - n)) =
           take n buf @ replicate (qiov_size q - n) 0"
  using assms
  by (intro nth_equalityI)
     (auto simp: qemu_iovec_memset_def qemu_iovec_from_buf_def qiov_size_def nth_append)

text \<open>C4 (what a read returns). When the submission is accepted and the engine completes
  the request: a negative status of the completed task is returned as it is; when the
  status is not negative and less than the size of the vector, the read returns 0 and the
  vector, of unchanged size, is zero from the offset status to its end. The status of the
  completed task is the engine's, or \<open>-EIO\<close> when the engine's exceeds the size.\<close>

theorem nfs_co_readv_result:
  assumes "context_p (client s) = Some c" and "first_completion turns = Some k"
  shows "\<exists>r s'. nfs_co_readv self 0 turns sector_num nb_sectors iov_p s = Some (r, s') \<and>
           status (task s') =
             (if int (qiov_size (iovecs (mem s) iov_p)) < sint (c_status k) then - EIO
              else c_status k) \<and>
           (status (task s') <s 0 \<longrightarrow> r = status (task s')) \<and>
           (0 \<le> sint (status (task s')) \<and>
            sint (status (task s')) < int (qiov_size (iovecs (mem s) iov_p)) \<longrightarrow>
              r = 0 \<and>
              qiov_size (iovecs (mem s') iov_p) = qiov_size (iovecs (mem s) iov_p) \<and>
              drop (nat (sint (status (task s')))) (flat (iovecs (mem s') iov_p)) =
                replicate (qiov_size (iovecs (mem s) iov_p) - nat (sint (status (task s')))) 0)"
proof -
  define s3 where "s3 = call (NfsPreadAsync (sector_num * BDRV_SECTOR_SIZE)
      (scast nb_sectors * BDRV_SECTOR_SIZE))
      ((nfs_co_init_task self s)\<lparr>task := (task (nfs_co_init_task self s))\<lparr>iov := Some iov_p\<rparr>\<rparr>)"
  have ctx: "context_p (client s3) = Some c"
    using assms(1) by (simp add: s3_def call_def init_task_props)
  have inc: "complete (task s3) = 0"
    by (simp add: s3_def call_def init_task_props NFSRPC_zero_def)
  have m3: "mem s3 = mem s" by (simp add: s3_def call_def init_task_props)
  from wait_co_completes [OF ctx inc assms(2), of c] obtain s4 where
    w: "wait_co turns s3 = Some s4"
       "task s4 = task (nfs_co_generic_cb (c_status k) c (c_data k) (c_bh k) s3)"
       "mem s4 = mem (nfs_co_generic_cb (c_status k) c (c_data k) (c_bh k) s3)" by blast
  have sz: "qiov_size (iovecs (mem s4) iov_p) = qiov_size (iovecs (mem s) iov_p)"
    using w(3) m3 by (simp add: cb_mem s3_def call_def init_task_props)
  have st: "status (task s4) =
             (if int (qiov_size (iovecs (mem s) iov_p)) < sint (c_status k) then - EIO
              else c_status k)"
    using w(2) m3 by (auto simp: cb_task s3_def call_def init_task_props word_sless_alt)
  let ?n = "nat (sint (status (task s4)))"
  show ?thesis
  proof (cases "status (task s4) <s 0")
    case True
    then show ?thesis using w(1) st
      by (simp add: nfs_co_readv_def Let_def s3_def [symmetric] word_sless_alt)
  next
    case False
    show ?thesis
    proof (cases "?n < qiov_size (iovecs (mem s4) iov_p)")
      case short: True
      then have le: "?n \<le> qiov_size (iovecs (mem s4) iov_p)" by simp
      show ?thesis using w(1) False short sz memset_tail [OF le] st
        by (simp add: nfs_co_readv_def Let_def s3_def [symmetric] word_sless_alt)
    next
      case full: False
      then show ?thesis using w(1) False sz st
        by (auto simp: nfs_co_readv_def Let_def s3_def [symmetric] word_sless_alt)
    qed
  qed
qed

theorem nfs_co_readv_result_witness:
  "context_p (client ex_state) = Some ex_ctx \<and>
   first_completion [ex_idle, ex_turn 2] = Some \<lparr>c_status = 2, c_data = ex_data, c_bh = 7\<rparr> \<and>
   (\<exists>s'. nfs_co_readv 1 0 [ex_idle, ex_turn 2] 0 1 0 ex_state = Some (0, s') \<and>
         status (task s') = 2 \<and>
         drop 2 (flat (iovecs (mem s') 0)) = [0, 0])"
  using nfs_co_readv_result [of ex_state ex_ctx "[ex_idle, ex_turn 2]"
      "\<lparr>c_status = 2, c_data = ex_data, c_bh = 7\<rparr>" 1 0 1 0]
  by (auto simp: ex_state_def ex_idle_def ex_turn_def ex_mem_def qiov_size_def
      numeral_2_eq_2)

text \<open>A short read leaves the bytes the engine delivered, followed by zeros.\<close>

lemma nfs_co_readv_short:
  assumes "context_p (client s) = Some c" and "first_completion turns = Some k"
    and "0 < sint (c_status k)"
    and "sint (c_status k) < int (qiov_size (iovecs (mem s) iov_p))"
    and "nat (sint (c_status k)) \<le> length (as_bytes (c_data k))"
  shows "\<exists>s'. nfs_co_readv self 0 turns sector_num nb_sectors iov_p s = Some (0, s') \<and>
           flat (iovecs (mem s') iov_p) =
             take (nat (sint (c_status k))) (as_bytes (c_data k)) @
             replicate (qiov_size (iovecs (mem s) iov_p) - nat (sint (c_status k))) 0"
proof -
  define s3 where "s3 = call (NfsPreadAsync (sector_num * BDRV_SECTOR_SIZE)
      (scast nb_sectors * BDRV_SECTOR_SIZE))
      ((nfs_co_init_task self s)\<lparr>task := (task (nfs_co_init_task self s))\<lparr>iov := Some iov_p\<rparr>\<rparr>)"
  have ctx: "context_p (client s3) = Some c"
    using assms(1) by (simp add: s3_def call_def init_task_props)
  have inc: "complete (task s3) = 0"
    by (simp add: s3_def call_def init_task_props NFSRPC_zero_def)
  have m3: "mem s3 = mem s" by (simp add: s3_def call_def init_task_props)
  from wait_co_completes [OF ctx inc assms(2), of c] obtain s4 where
    w: "wait_co turns s3 = Some s4"
       "task s4 = task (nfs_co_generic_cb (c_status k) c (c_data k) (c_bh k) s3)"
       "mem s4 = mem (nfs_co_generic_cb (c_status k) c (c_data k) (c_bh k) s3)" by blast
  let ?n = "nat (sint (c_status k))"
  let ?q = "iovecs (mem s) iov_p"
  have st: "status (task s4) = c_status k"
    using w(2) m3 assms(3,4)
    by (simp add: cb_task s3_def call_def init_task_props word_sless_alt)
  have q4: "iovecs (mem s4) iov_p = qemu_iovec_from_buf ?q 0 (as_bytes (c_data k)) ?n"
    using w(3) m3 assms(3,4)
    by (simp add: cb_mem s3_def call_def init_task_props word_sless_alt)
  have le: "?n \<le> qiov_size ?q" using assms(3,4) by simp
  have lt: "?n < qiov_size ?q" using assms(3,4) by simp
  show ?thesis
    using w(1) st q4 lt assms(3) from_buf_memset [OF le assms(5)]
    by (simp add: nfs_co_readv_def Let_def s3_def [symmetric] word_sless_alt)
qed


text \<open>C7 (the allocated size). When the submission is accepted and the engine completes
  the metadata request as libnfs does, with status 0 or a negative one: for a status that
  is not negative the local \<open>struct stat\<close> holds the reported metadata and the result is
  the reported block count times the reported block size, the product of the two signed
  64-bit values, which is their product as integers whenever that fits in 64 bits; for a
  negative status the result is that status. The status of the task is the engine's.\<close>

theorem nfs_get_allocated_file_size_result:
  assumes "context_p (client s) = Some c" and "first_completion turns = Some k"
    and "fstat_completion k"
  shows "\<exists>r s'. nfs_get_allocated_file_size 0 turns st_p s = Some (r, s') \<and>
           status (task s') = c_status k \<and>
           (0 \<le> sint (status (task s')) \<longrightarrow>
              stats (mem s') st_p = as_stat (c_data k) \<and>
              r = st_blocks (as_stat (c_data k)) * st_blksize (as_stat (c_data k)) \<and>
              (- (2 ^ 63) \<le> sint (st_blocks (as_stat (c_data k))) *
                              sint (st_blksize (as_stat (c_data k))) \<and>
               sint (st_blocks (as_stat (c_data k))) * sint (st_blksize (as_stat (c_data k)))
                 < 2 ^ 63 \<longrightarrow>
               sint r = sint (st_blocks (as_stat (c_data k))) *
                        sint (st_blksize (as_stat (c_data k))))) \<and>
           (status (task s') <s 0 \<longrightarrow> sint r = sint (status (task s')))"
proof -
  define s2 where "s2 = call NfsFstatAsync (s\<lparr>task := NFSRPC_zero\<lparr>st := Some st_p\<rparr>\<rparr>)"
  have ctx: "context_p (client s2) = Some c"
    using assms(1) by (simp add: s2_def call_def)
  have inc: "complete (task s2) = 0"
    by (simp add: s2_def call_def NFSRPC_zero_def)
  from wait_co_completes [OF ctx inc assms(2), of c] obtain s3 where
    w: "wait_co turns s2 = Some s3"
       "task s3 = task (nfs_co_generic_cb (c_status k) c (c_data k) (c_bh k) s2)"
       "mem s3 = mem (nfs_co_generic_cb (c_status k) c (c_data k) (c_bh k) s2)" by blast
  have st: "status (task s3) = c_status k"
    using w(2) by (simp add: cb_task s2_def call_def NFSRPC_zero_def)
  have zero: "c_status k = 0" if "0 \<le> sint (c_status k)"
  proof -
    from assms(3) that have "sint (c_status k) = sint (0 :: cint)"
      by (simp add: fstat_completion_def word_sle_eq)
    then show ?thesis by (simp only: word_eq_iff_signed [symmetric])
  qed
  have ok: "c_status k = 0 \<Longrightarrow> stats (mem s3) st_p = as_stat (c_data k)"
    using w(3) by (simp add: cb_mem s2_def call_def NFSRPC_zero_def)
  have prod: "- (2 ^ 63) \<le> sint x * sint y \<Longrightarrow> sint x * sint y < 2 ^ 63 \<Longrightarrow>
      sint (x * y) = sint x * sint y" for x y :: int64
    by (simp add: sint_word_mult signed_take_bit_int_eq_self)
  show ?thesis
  proof (cases "c_status k <s 0")
    case True
    then have "\<not> 0 \<le> sint (c_status k)" by (simp add: word_sless_alt)
    with True w(1) st show ?thesis
      by (simp add: nfs_get_allocated_file_size_def Let_def s2_def [symmetric] wait_aio_eq
          sint_scast_64)
  next
    case False
    then have "0 \<le> sint (c_status k)" by (simp add: word_sless_alt)
    then have z: "c_status k = 0" by (rule zero)
    have nl: "\<not> (0 :: cint) <s 0" by (simp add: word_sless_alt)
    from z w(1) st ok nl show ?thesis
      by (simp add: nfs_get_allocated_file_size_def Let_def s2_def [symmetric] wait_aio_eq prod)
  qed
qed

theorem nfs_get_allocated_file_size_witness:
  "context_p (client ex_state) = Some ex_ctx \<and>
   first_completion [ex_idle, ex_turn 0] = Some \<lparr>c_status = 0, c_data = ex_data, c_bh = 7\<rparr> \<and>
   fstat_completion \<lparr>c_status = 0, c_data = ex_data, c_bh = 7\<rparr> \<and>
   (\<exists>s'. nfs_get_allocated_file_size 0 [ex_idle, ex_turn 0] 0 ex_state = Some (4096, s')) \<and>
   first_completion [ex_turn (- 5)] = Some \<lparr>c_status = - 5, c_data = ex_data, c_bh = 7\<rparr> \<and>
   fstat_completion \<lparr>c_status = - 5, c_data = ex_data, c_bh = 7\<rparr> \<and>
   (\<exists>r s'. nfs_get_allocated_file_size 0 [ex_turn (- 5)] 0 ex_state = Some (r, s') \<and>
           sint r = - 5)"
  using nfs_get_allocated_file_size_result [of ex_state ex_ctx "[ex_idle, ex_turn 0]"
      "\<lparr>c_status = 0, c_data = ex_data, c_bh = 7\<rparr>" 0]
    nfs_get_allocated_file_size_result [of ex_state ex_ctx "[ex_turn (- 5)]"
      "\<lparr>c_status = - 5, c_data = ex_data, c_bh = 7\<rparr>" 0]
  by (auto simp: ex_state_def ex_idle_def ex_turn_def ex_data_def ex_stat_def
      fstat_completion_def word_sle_eq word_sless_alt)


subsection \<open>What the callback copies\<close>

text \<open>C2 (a count beyond the vector's size). When the task has a vector and the engine
  reports a count greater than the vector's size, the callback leaves every vector as it
  was and the task's status is \<open>-EIO\<close>; and a vector changes only when the task has one
  and the count is positive and at most its size.\<close>

theorem nfs_co_generic_cb_oversize:
  "(\<forall>p. iov (task s) = Some p \<and> int (qiov_size (iovecs (mem s) p)) < sint a \<longrightarrow>
        iovecs (mem (nfs_co_generic_cb a nfs d b s)) = iovecs (mem s) \<and>
        status (task (nfs_co_generic_cb a nfs d b s)) = - EIO) \<and>
   (iovecs (mem (nfs_co_generic_cb a nfs d b s)) \<noteq> iovecs (mem s) \<longrightarrow>
      (\<exists>p. iov (task s) = Some p \<and> 0 < sint a \<and>
           sint a \<le> int (qiov_size (iovecs (mem s) p))))"
proof (intro conjI allI impI)
  fix p
  assume over: "iov (task s) = Some p \<and> int (qiov_size (iovecs (mem s) p)) < sint a"
  then have pos: "0 <s a" by (simp add: word_sless_alt)
  from over pos show "iovecs (mem (nfs_co_generic_cb a nfs d b s)) = iovecs (mem s)"
    by (simp add: cb_mem)
  from over pos show "status (task (nfs_co_generic_cb a nfs d b s)) = - EIO"
    by (simp add: cb_task)
next
  assume changed: "iovecs (mem (nfs_co_generic_cb a nfs d b s)) \<noteq> iovecs (mem s)"
  show "\<exists>p. iov (task s) = Some p \<and> 0 < sint a \<and>
           sint a \<le> int (qiov_size (iovecs (mem s) p))"
  proof (cases "iov (task s)")
    case None
    with changed show ?thesis by (simp add: cb_mem)
  next
    case (Some p)
    with changed have "0 <s a \<and> sint a \<le> int (qiov_size (iovecs (mem s) p))"
      by (simp add: cb_mem split: if_splits)
    with Some show ?thesis by (simp add: word_sless_alt)
  qed
qed

theorem nfs_co_generic_cb_oversize_witness:
  "iov (task ex_read_state) = Some 0 \<and>
   int (qiov_size (iovecs (mem ex_read_state) 0)) < sint (5 :: cint) \<and>
   iovecs (mem (nfs_co_generic_cb 5 ex_ctx ex_data 7 ex_read_state)) = iovecs (mem ex_read_state) \<and>
   status (task (nfs_co_generic_cb 5 ex_ctx ex_data 7 ex_read_state)) = - EIO \<and>
   iovecs (mem (nfs_co_generic_cb 3 ex_ctx ex_data 7 ex_read_state)) \<noteq> iovecs (mem ex_read_state) \<and>
   sint (3 :: cint) \<le> int (qiov_size (iovecs (mem ex_read_state) 0))"
  using nfs_co_generic_cb_oversize [of ex_read_state 5 ex_ctx ex_data 7]
    nfs_co_generic_cb_oversize [of ex_read_state 3 ex_ctx ex_data 7]
  apply (simp add: ex_read_state_def ex_state_def ex_mem_def qiov_size_def NFSRPC_zero_def)
  apply (simp add: cb_mem ex_read_state_def ex_state_def ex_mem_def qiov_size_def NFSRPC_zero_def word_sless_alt 
     qemu_iovec_from_buf_def ex_data_def fun_eq_iff)
  done

subsection \<open>The order of the callback's statements\<close>

lemma run_states_Nil: "(run_states fs s = []) = (fs = [])"
  by (cases fs) simp_all

lemma run_states_last: "fs \<noteq> [] \<Longrightarrow> last (run_states fs s) = run fs s"
  by (induction fs arbitrary: s) (auto simp: run_states_Nil)

text \<open>C1 (the flag and the status), as amended. The callback runs six statements. The
  first sets the completion flag, when the status and the memory are still those of
  before; the second writes the status the engine delivered; the third and the fourth
  copy the data; all of this before the callback returns. In the state it returns the
  flag is set, the status is the engine's (or \<open>-EIO\<close> for a count beyond the vector), the
  vector holds the delivered bytes and the \<open>struct stat\<close> the delivered metadata; the
  callback has scheduled the wake-up at most and has not entered a coroutine. The waiter
  runs again after the reactor's turn only, and then the task and the memory it observes
  are those the callback left.\<close>

theorem nfs_co_generic_cb_flag_first:
  "length (nfs_co_generic_cb_states a nfs d b s) = 6 \<and>
   hd (nfs_co_generic_cb_states a nfs d b s) = cb_complete s \<and>
   complete (task (hd (nfs_co_generic_cb_states a nfs d b s))) = 1 \<and>
   status (task (hd (nfs_co_generic_cb_states a nfs d b s))) = status (task s) \<and>
   mem (hd (nfs_co_generic_cb_states a nfs d b s)) = mem s \<and>
   nfs_co_generic_cb_states a nfs d b s ! 1 = cb_status a (cb_complete s) \<and>
   status (task (nfs_co_generic_cb_states a nfs d b s ! 1)) = a \<and>
   complete (task (nfs_co_generic_cb_states a nfs d b s ! 1)) = 1 \<and>
   nfs_co_generic_cb_states a nfs d b s ! 2 = cb_iov d (cb_status a (cb_complete s)) \<and>
   nfs_co_generic_cb_states a nfs d b s ! 3 =
     cb_st d (cb_iov d (cb_status a (cb_complete s))) \<and>
   last (nfs_co_generic_cb_states a nfs d b s) = nfs_co_generic_cb a nfs d b s \<and>
   task (nfs_co_generic_cb a nfs d b s) =
     (task s)\<lparr>complete := 1,
              status := (case iov (task s) of
                           None \<Rightarrow> a
                         | Some p \<Rightarrow> if 0 <s a \<and> int (qiov_size (iovecs (mem s) p)) < sint a
                                     then - EIO else a),
              bh := (case co (task s) of None \<Rightarrow> bh (task s) | Some c \<Rightarrow> Some b)\<rparr> \<and>
   mem (nfs_co_generic_cb a nfs d b s) =
     (mem s)\<lparr>iovecs := (case iov (task s) of
                           None \<Rightarrow> iovecs (mem s)
                         | Some p \<Rightarrow>
                             if 0 <s a \<and> sint a \<le> int (qiov_size (iovecs (mem s) p))
                             then (iovecs (mem s))
                                    (p := qemu_iovec_from_buf (iovecs (mem s) p) 0 (as_bytes d)
                                            (nat (sint a)))
                             else iovecs (mem s)),
             stats := (case st (task s) of
                         None \<Rightarrow> stats (mem s)
                       | Some p \<Rightarrow> if a = 0 then (stats (mem s))(p := as_stat d)
                                   else stats (mem s))\<rparr> \<and>
   (\<forall>x. CoroutineEnter x \<notin>
          set (drop (length (calls s)) (calls (nfs_co_generic_cb a nfs d b s)))) \<and>
   (context_p (client s) = Some c \<and> t_completion t = Some k \<longrightarrow>
      (\<exists>s'. reactor_turn t s = Some s' \<and>
            task s' = task (nfs_co_generic_cb (c_status k) c (c_data k) (c_bh k) s) \<and>
            mem s' = mem (nfs_co_generic_cb (c_status k) c (c_data k) (c_bh k) s)))"
proof -
  let ?sts = "nfs_co_generic_cb_states a nfs d b s"
  have sts: "?sts = [cb_complete s, cb_status a (cb_complete s),
      cb_iov d (cb_status a (cb_complete s)),
      cb_st d (cb_iov d (cb_status a (cb_complete s))),
      cb_report nfs (cb_st d (cb_iov d (cb_status a (cb_complete s)))),
      cb_bh b (cb_report nfs (cb_st d (cb_iov d (cb_status a (cb_complete s)))))]"
    by (simp add: nfs_co_generic_cb_states_def nfs_co_generic_cb_stmts_def)
  have 1: "length ?sts = 6" "hd ?sts = cb_complete s"
    "?sts ! 1 = cb_status a (cb_complete s)"
    "?sts ! 2 = cb_iov d (cb_status a (cb_complete s))"
    "?sts ! 3 = cb_st d (cb_iov d (cb_status a (cb_complete s)))"
    by (simp_all add: sts)
  have 2: "complete (task (cb_complete s)) = 1" "status (task (cb_complete s)) = status (task s)"
    "mem (cb_complete s) = mem s"
    "status (task (cb_status a (cb_complete s))) = a"
    "complete (task (cb_status a (cb_complete s))) = 1"
    by (simp_all add: cb_complete_def cb_status_def)
  have 3: "last ?sts = nfs_co_generic_cb a nfs d b s"
    unfolding nfs_co_generic_cb_states_def nfs_co_generic_cb_def
    by (rule run_states_last) (simp add: nfs_co_generic_cb_stmts_def)
  have 4: "\<forall>x. CoroutineEnter x \<notin>
      set (drop (length (calls s)) (calls (nfs_co_generic_cb a nfs d b s)))"
    by (simp add: cb_calls split: option.splits)
  have 5: "context_p (client s) = Some c \<and> t_completion t = Some k \<longrightarrow>
      (\<exists>s'. reactor_turn t s = Some s' \<and>
            task s' = task (nfs_co_generic_cb (c_status k) c (c_data k) (c_bh k) s) \<and>
            mem s' = mem (nfs_co_generic_cb (c_status k) c (c_data k) (c_bh k) s))"
    using reactor_turn_completes [of s c t k c] by blast
  show ?thesis
    unfolding 1 2 3
    by (intro conjI refl cb_task cb_mem 4 5)
qed


text \<open>C1 as stated fails: after the first statement of the callback the flag is set
  while the status and the vector are not yet final. Here the engine delivers three
  bytes to a read: in that state the status is still 0 and the vector unchanged.\<close>

theorem nfs_co_generic_cb_flag_first_counterexample:
  "complete (task (hd (nfs_co_generic_cb_states 3 ex_ctx ex_data 7 ex_read_state))) = 1 \<and>
   status (task (hd (nfs_co_generic_cb_states 3 ex_ctx ex_data 7 ex_read_state))) = 0 \<and>
   status (task (nfs_co_generic_cb 3 ex_ctx ex_data 7 ex_read_state)) = 3 \<and>
   flat (iovecs (mem (hd (nfs_co_generic_cb_states 3 ex_ctx ex_data 7 ex_read_state))) 0) = [9, 9, 9, 9] \<and>
   flat (iovecs (mem (nfs_co_generic_cb 3 ex_ctx ex_data 7 ex_read_state)) 0) = [1, 2, 3, 9]"
  apply (simp add: nfs_co_generic_cb_states_def nfs_co_generic_cb_stmts_def cb_complete_def cb_task cb_mem
      ex_read_state_def ex_state_def ex_mem_def NFSRPC_zero_def qiov_size_def word_sless_alt
      qemu_iovec_from_buf_def ex_data_def)
  done

theorem nfs_co_generic_cb_flag_first_witness:
  "context_p (client ex_read_state) = Some ex_ctx \<and>
   t_completion (ex_turn 3) = Some \<lparr>c_status = 3, c_data = ex_data, c_bh = 7\<rparr> \<and>
   (\<exists>s'. reactor_turn (ex_turn 3) ex_read_state = Some s' \<and> complete (task s') = 1 \<and>
         status (task s') = 3 \<and> flat (iovecs (mem s') 0) = [1, 2, 3, 9])"
proof -
  let ?k = "\<lparr>c_status = 3, c_data = ex_data, c_bh = 7\<rparr>"
  have h1: "context_p (client ex_read_state) = Some ex_ctx"
    by (simp add: ex_read_state_def ex_state_def)
  have h2: "t_completion (ex_turn 3) = Some ?k"
    by (simp add: ex_turn_def)
  from nfs_co_generic_cb_flag_first [of 3 ex_ctx ex_data 7 ex_read_state ex_ctx "ex_turn 3" ?k]
    h1 h2
  obtain s' where s': "reactor_turn (ex_turn 3) ex_read_state = Some s'"
    "task s' = task (nfs_co_generic_cb 3 ex_ctx ex_data 7 ex_read_state)"
    "mem s' = mem (nfs_co_generic_cb 3 ex_ctx ex_data 7 ex_read_state)"
    by auto
  have "complete (task s') = 1" "status (task s') = 3"
    "flat (iovecs (mem s') 0) = [1, 2, 3, 9]"
    unfolding s'(2,3)
    by (simp_all add: cb_task cb_mem ex_read_state_def ex_state_def ex_mem_def NFSRPC_zero_def
        qiov_size_def word_sless_alt qemu_iovec_from_buf_def ex_data_def)
  with s'(1) h1 h2 show ?thesis by simp
qed


subsection \<open>Opening\<close>

lemma strncmp_take: "(strncmp a b n = 0) = (take n a = take n b)"
  by (induction a b n rule: strncmp.induct) auto

lemma nfs_client_open_params_fails:
  "fst (nfs_client_open_params ps s) = (\<not> list_all accepted ps)"
  by (induction ps arbitrary: s)
     (auto simp: accepted_def strncmp_take split: option.splits)

lemma nfs_client_open_fail_closed:
  assumes "fst (nfs_client_open_body eng uri_opt flags s)"
  shows "client (snd (nfs_client_open eng uri_opt flags s)) = NFSClient_zero"
  using assms
  by (auto simp: nfs_client_open_def nfs_client_close_def Let_def
      split: prod.splits bool.splits)

lemma nfs_client_open_success:
  assumes "nfs_client_open_body eng uri_opt flags s = (False, r, s')"
  shows "r = ucast (DIV_ROUND_UP (st_size (fstat_st eng)) BDRV_SECTOR_SIZE)"
  using assms
  by (auto simp: nfs_client_open_body_def Let_def
      split: option.splits prod.splits bool.splits if_splits)

text \<open>A parameter that the loop does not accept fails the open with \<open>-EINVAL\<close> and leaves
  the client closed.\<close>

lemma nfs_client_open_rejects:
  assumes "strrchr (path uri) CHR ''/'' = Some k" and "init_context eng = Some c"
    and "\<not> list_all accepted (query uri)"
  shows "fst (nfs_client_open eng (Some uri) flags s) = scast (- EINVAL) \<and>
         client (snd (nfs_client_open eng (Some uri) flags s)) = NFSClient_zero"
proof -
  let ?s1 = "s\<lparr>client := (client s)\<lparr>context_p := Some c\<rparr>\<rparr>"
  obtain f s2 where p: "nfs_client_open_params (query uri) ?s1 = (f, s2)"
    by (cases "nfs_client_open_params (query uri) ?s1")
  with assms(3) nfs_client_open_params_fails [of "query uri" ?s1] have f by simp
  with p assms(1,2) have body: "nfs_client_open_body eng (Some uri) flags s = (True, - EINVAL, s2)"
    by (simp add: nfs_client_open_body_def Let_def)
  then have "fst (nfs_client_open eng (Some uri) flags s) = scast (- EINVAL)"
    by (simp add: nfs_client_open_def)
  moreover have "client (snd (nfs_client_open eng (Some uri) flags s)) = NFSClient_zero"
    by (rule nfs_client_open_fail_closed) (simp add: body)
  ultimately show ?thesis by simp
qed

text \<open>C5 (unknown parameters), at a failing input. The name \<open>uidx\<close> is not one of the three
  names, but it begins with \<open>uid\<close> and three characters are compared: the open goes on,
  takes the value for the user id, mounts, opens the file and succeeds.\<close>

theorem nfs_client_open_prefix_accepted:
  "nfs_client_open (ex_engine 1000)
     (Some (ex_uri [\<lparr>qp_name = ''uidx'', qp_value = Some ''1000''\<rparr>])) 0 ex_closed =
   (2, ex_closed\<lparr>client := \<lparr>context_p = Some ex_ctx, fh = Some 1, events = 0,
                               has_zero_init = True\<rparr>,
                  calls := [NfsSetUid 1000, NfsMount ''host'' ''/export'',
                            NfsOpen ''/disk.img'' 0, NfsFstat]\<rparr>)"
  by (simp add: nfs_client_open_def nfs_client_open_body_def ex_engine_def ex_uri_def
      ex_closed_def ex_state_def strrchr_def Let_def NFSClient_zero_def strncmp_take
      call_def atoi_def strtol_def isspace_def isdigit_def O_CREAT_def word_sless_alt ex_stat_def
      DIV_ROUND_UP_def BDRV_SECTOR_SIZE_def S_ISREG_def)

lemma uint_ucast_small:
  fixes q :: uint64
  assumes "uint q < 2 ^ 31"
  shows "uint (ucast q :: cint) = uint q"
proof -
  have "uint (ucast q :: cint) = take_bit 32 (uint q)"
    by (simp add: unsigned_ucast_eq)
  also have "\<dots> = uint q"
    using assms by (simp add: take_bit_int_eq_self)
  finally show ?thesis .
qed

lemma sint_small:
  fixes w :: cint
  assumes "uint w < 2 ^ 31"
  shows "sint w = uint w"
proof -
  have nonneg: "0 \<le> uint w" by simp
  have "sint w = signed_take_bit 31 (uint w)"
    by (simp add: sint_uint)
  also have "\<dots> = uint w"
    by (rule signed_take_bit_int_eq_self) (use assms nonneg in linarith)+
  finally show ?thesis .
qed

text \<open>Below one tebibyte the truncation to \<open>int\<close> loses nothing: the result of a
  successful open is the number of sectors, rounded up.\<close>

lemma sectors_below_1T:
  fixes sz :: uint64
  assumes "uint sz \<le> 2 ^ 40 - 512"
  shows "sint (scast (ucast (DIV_ROUND_UP sz BDRV_SECTOR_SIZE) :: cint) :: int64) =
           (uint sz + 511) div 512"
proof -
  define q where "q = DIV_ROUND_UP sz BDRV_SECTOR_SIZE"
  have nonneg: "0 \<le> uint sz" by simp
  have "uint (sz + 511) = (uint sz + 511) mod 2 ^ 64"
    by (simp add: uint_word_ariths)
  also have "\<dots> = uint sz + 511"
    using assms nonneg by (intro mod_pos_pos_trivial) simp_all
  finally have a: "uint (sz + 511) = uint sz + 511" .
  have q: "q = (sz + 511) div 512"
    by (simp add: q_def DIV_ROUND_UP_def BDRV_SECTOR_SIZE_def add.commute)
  have u: "uint q = (uint sz + 511) div 512"
    unfolding q by (simp add: uint_div a)
  have lt: "uint q < 2 ^ 31"
    unfolding u using assms by simp
  have "sint (ucast q :: cint) = uint q"
    using lt by (simp add: sint_small uint_ucast_small)
  then show ?thesis using u
    by (simp add: sint_scast_64 q_def)
qed


lemma nfs_client_open_sectors_below_1T:
  assumes "nfs_client_open_body eng uri_opt flags s = (False, r, s')"
    and "uint (st_size (fstat_st eng)) \<le> 2 ^ 40 - 512"
  shows "sint (fst (nfs_client_open eng uri_opt flags s)) =
           (uint (st_size (fstat_st eng)) + 511) div 512"
  using nfs_client_open_success [OF assms(1)] sectors_below_1T [OF assms(2)] assms(1)
  by (simp add: nfs_client_open_def)

text \<open>C10 (the size in sectors), at a failing input. For a file of \<open>2 ^ 41 + 1\<close> bytes the
  number of sectors, rounded up, is \<open>2 ^ 32 + 1\<close>; the variable \<open>ret\<close> keeps its low 32
  bits, the open succeeds and the block layer is given one sector.\<close>

theorem nfs_client_open_sectors_truncated:
  "fst (nfs_client_open (ex_engine (2 ^ 41 + 1)) (Some (ex_uri [])) 0 ex_closed) = 1 \<and>
   DIV_ROUND_UP (2 ^ 41 + 1) BDRV_SECTOR_SIZE = 4294967297 \<and>
   (case nfs_file_open (ex_engine (2 ^ 41 + 1)) False (Some (ex_uri [])) 0 0 ex_closed of
      (r, total_sectors, s) \<Rightarrow> r = 0 \<and> total_sectors = 1)"
  by (simp add: nfs_file_open_def nfs_client_open_def nfs_client_open_body_def ex_engine_def
      ex_uri_def ex_closed_def ex_state_def strrchr_def Let_def NFSClient_zero_def
      call_def O_CREAT_def word_sless_alt ex_stat_def BDRV_O_RDWR_def O_RDONLY_def
      DIV_ROUND_UP_def BDRV_SECTOR_SIZE_def S_ISREG_def)

end
